theory Spec2Isabelle
  imports Complex_Main
begin

section \<open>JavaScript values\<close>

text \<open>
  Job arguments, job results, thrown values and the properties of an options object
  are arbitrary JavaScript values. The model keeps what the queue does with them:
  \<open>typeof\<close>, truthiness, property access, and the conversion to a number that \<open><\<close>
  applies to its operands.

  A number is a rational, an infinity or \<open>NaN\<close>; the rounding of doubles is not
  modelled. A string is a list of bytes. An object is the list of its properties, a
  plain object with no \<open>valueOf\<close> or \<open>toString\<close> of its own. Arrays, functions,
  symbols and big integers are not among the values of the model.
\<close>

datatype jsnum = Num rat | PosInfinity | NegInfinity | NaN

datatype jsval =
    JUndefined
  | JNull
  | JBool bool
  | JNum jsnum
  | JStr string
  | JObj "(string \<times> jsval) list"

datatype js_error = TypeError

fun typeof :: "jsval \<Rightarrow> string" where
  "typeof JUndefined = ''undefined''"
| "typeof JNull = ''object''"
| "typeof (JBool b) = ''boolean''"
| "typeof (JNum x) = ''number''"
| "typeof (JStr s) = ''string''"
| "typeof (JObj ps) = ''object''"

fun truthy :: "jsval \<Rightarrow> bool" where
  "truthy JUndefined = False"
| "truthy JNull = False"
| "truthy (JBool b) = b"
| "truthy (JNum x) = (x \<noteq> Num 0 \<and> x \<noteq> NaN)"
| "truthy (JStr s) = (s \<noteq> [])"
| "truthy (JObj ps) = True"

text \<open>\<open>a || b\<close>: the left operand when it is truthy, the right one otherwise.\<close>

definition js_or :: "jsval \<Rightarrow> jsval \<Rightarrow> jsval" where
  "js_or a b = (if truthy a then a else b)"

text \<open>
  Property access \<open>v.k\<close>: reading a property of \<open>null\<close> or \<open>undefined\<close> throws a
  TypeError, a property an object does not have reads as \<open>undefined\<close>.
\<close>

definition lookup :: "(string \<times> jsval) list \<Rightarrow> string \<Rightarrow> jsval" where
  "lookup ps k = (case map_of ps k of None \<Rightarrow> JUndefined | Some v \<Rightarrow> v)"

fun get_prop :: "jsval \<Rightarrow> string \<Rightarrow> js_error + jsval" where
  "get_prop JUndefined k = Inl TypeError"
| "get_prop JNull k = Inl TypeError"
| "get_prop (JObj ps) k = Inr (lookup ps k)"
| "get_prop (JStr s) k =
     Inr (if k = ''length'' then JNum (Num (of_nat (length s))) else JUndefined)"
| "get_prop (JBool b) k = Inr JUndefined"
| "get_prop (JNum x) k = Inr JUndefined"

text \<open>
  \<open>x < y\<close> on numbers: false as soon as one side is \<open>NaN\<close>.
\<close>

fun js_less :: "jsnum \<Rightarrow> jsnum \<Rightarrow> bool" where
  "js_less (Num a) (Num b) = (a < b)"
| "js_less (Num a) PosInfinity = True"
| "js_less NegInfinity (Num b) = True"
| "js_less NegInfinity PosInfinity = True"
| "js_less x y = False"

fun negate :: "jsnum \<Rightarrow> jsnum" where
  "negate (Num a) = Num (- a)"
| "negate PosInfinity = NegInfinity"
| "negate NegInfinity = PosInfinity"
| "negate NaN = NaN"

text \<open>
  The conversion of a string to a number (\<open>StringToNumber\<close> of the language
  standard): white space is trimmed at both ends (the ASCII white space here), the
  empty string is 0, then comes a binary, octal or hexadecimal integer with its prefix,
  or a decimal literal with an optional sign, fraction and exponent, or a signed
  \<open>Infinity\<close>; anything else is \<open>NaN\<close>.
\<close>

definition is_space :: "char \<Rightarrow> bool" where
  "is_space c \<longleftrightarrow> of_char c \<in> {9, 10, 11, 12, 13, 32 :: nat}"

definition trim :: "string \<Rightarrow> string" where
  "trim s = rev (dropWhile is_space (rev (dropWhile is_space s)))"

definition digit_of :: "nat \<Rightarrow> char \<Rightarrow> nat option" where
  "digit_of b c =
     (let n = of_char c :: nat;
          v = (if 48 \<le> n \<and> n \<le> 57 then Some (n - 48)
               else if 97 \<le> n \<and> n \<le> 102 then Some (n - 87)
               else if 65 \<le> n \<and> n \<le> 70 then Some (n - 55)
               else None)
      in case v of None \<Rightarrow> None | Some d \<Rightarrow> if d < b then Some d else None)"

fun digits_from :: "nat \<Rightarrow> nat \<Rightarrow> string \<Rightarrow> nat option" where
  "digits_from b a [] = Some a"
| "digits_from b a (c # cs) =
     (case digit_of b c of None \<Rightarrow> None | Some d \<Rightarrow> digits_from b (b * a + d) cs)"

definition digits_of :: "nat \<Rightarrow> string \<Rightarrow> nat option" where
  "digits_of b s = (if s = [] then None else digits_from b 0 s)"

text \<open>The exponent part: nothing, or \<open>e\<close> with an optional sign and digits.\<close>

definition exponent_of :: "string \<Rightarrow> (bool \<times> nat) option" where
  "exponent_of r =
     (case r of
        [] \<Rightarrow> Some (False, 0)
      | e # x \<Rightarrow>
          (case x of
             [] \<Rightarrow> None
           | c # ds \<Rightarrow>
               if c = CHR ''-'' then map_option (Pair True) (digits_of 10 ds)
               else if c = CHR ''+'' then map_option (Pair False) (digits_of 10 ds)
               else map_option (Pair False) (digits_of 10 x)))"

definition unsigned_decimal :: "string \<Rightarrow> jsnum" where
  "unsigned_decimal s =
     (if s = ''Infinity'' then PosInfinity
      else
        let m = takeWhile (\<lambda>c. c \<noteq> CHR ''e'' \<and> c \<noteq> CHR ''E'') s;
            r = dropWhile (\<lambda>c. c \<noteq> CHR ''e'' \<and> c \<noteq> CHR ''E'') s;
            ip = takeWhile (\<lambda>c. c \<noteq> CHR ''.'') m;
            fp = drop 1 (dropWhile (\<lambda>c. c \<noteq> CHR ''.'') m)
        in case (digits_of 10 (ip @ fp), exponent_of r) of
             (Some k, Some (neg, x)) \<Rightarrow>
               Num (if neg then of_nat k / 10 ^ (length fp + x)
                    else of_nat k * 10 ^ x / 10 ^ length fp)
           | _ \<Rightarrow> NaN)"

definition StringToNumber :: "string \<Rightarrow> jsnum" where
  "StringToNumber s =
     (let t = trim s
      in if t = [] then Num 0
         else if take 2 t \<in> {''0x'', ''0X''}
           then (case digits_of 16 (drop 2 t) of None \<Rightarrow> NaN | Some k \<Rightarrow> Num (of_nat k))
         else if take 2 t \<in> {''0o'', ''0O''}
           then (case digits_of 8 (drop 2 t) of None \<Rightarrow> NaN | Some k \<Rightarrow> Num (of_nat k))
         else if take 2 t \<in> {''0b'', ''0B''}
           then (case digits_of 2 (drop 2 t) of None \<Rightarrow> NaN | Some k \<Rightarrow> Num (of_nat k))
         else if hd t = CHR ''-'' then negate (unsigned_decimal (tl t))
         else if hd t = CHR ''+'' then unsigned_decimal (tl t)
         else unsigned_decimal t)"

text \<open>
  \<open>ToNumber\<close>, the conversion \<open><\<close> applies to an operand when the other one
  is a number. A plain object converts through the string \<open>[object Object]\<close>, which is
  not a number.
\<close>

fun ToNumber :: "jsval \<Rightarrow> jsnum" where
  "ToNumber JUndefined = NaN"
| "ToNumber JNull = Num 0"
| "ToNumber (JBool b) = Num (if b then 1 else 0)"
| "ToNumber (JNum x) = x"
| "ToNumber (JStr s) = StringToNumber s"
| "ToNumber (JObj ps) = NaN"

text \<open>Decimal rendering of a number, as string concatenation \<open>Date.now() + '...'\<close> does.\<close>

fun dec :: "nat \<Rightarrow> string" where
  "dec n = (if n < 10 then [char_of (48 + n)] else dec (n div 10) @ [char_of (48 + n mod 10)])"

declare dec.simps [simp del]


section \<open>The task queue (services/taskQueueService.js)\<close>

text \<open>
  A task as \<open>addTask\<close> builds it. \<open>taskFn\<close> is not a field: what the job body does when
  it is invoked is supplied by the environment, as the outcome of each invocation.
  \<open>retries\<close> starts at 0 and is only ever incremented, so it is a natural number;
  \<open>maxRetries\<close> and \<open>retryDelay\<close> hold whatever value the options gave.
  Two fields are bookkeeping of the model: \<open>handle\<close> is the identity of the task object
  and of the promise whose \<open>resolve\<close> it holds, \<open>calls\<close> counts the invocations of
  \<open>taskFn\<close> (line 82).
\<close>

record task =
  task_id :: string
  taskName :: string
  args :: "jsval list"
  addedAt :: nat
  retries :: nat
  maxRetries :: jsval
  retryDelay :: jsval
  handle :: nat
  calls :: nat

text \<open>
  The queue object. \<open>queue\<close>, \<open>processing\<close>, \<open>maxConcurrent\<close> and \<open>activeTasks\<close> are
  the fields of the class. The rest is the state JavaScript keeps implicitly:
  \<open>running\<close> are the tasks whose body is awaited (line 82), \<open>timers\<close> the tasks held
  by a pending \<open>setTimeout\<close> (line 96), \<open>settled\<close> the promises resolved so far, each
  with the task as it was then and the value it was resolved with, \<open>escaped\<close> the
  exceptions that left \<open>processQueue\<close> (its promise rejects and nobody handles it).
\<close>

record TaskQueue =
  queue :: "task list"
  processing :: bool
  maxConcurrent :: int
  activeTasks :: int
  running :: "task list"
  timers :: "task list"
  settled :: "(task \<times> jsval) list"
  escaped :: "js_error list"
  nextHandle :: nat

definition TaskQueue_new :: TaskQueue where
  "TaskQueue_new =
     \<lparr>queue = [], processing = False, maxConcurrent = 3, activeTasks = 0,
      running = [], timers = [], settled = [], escaped = [], nextHandle = 0\<rparr>"

text \<open>
  \<open>createTaskOptions(maxRetries = 3, retryDelay = 5000)\<close>: a default parameter takes
  its default when the argument is \<open>undefined\<close> or left out, and any other value as
  it is.
\<close>

definition createTaskOptions :: "jsval \<Rightarrow> jsval \<Rightarrow> jsval" where
  "createTaskOptions m d =
     JObj [(''_isTaskOptions'', JBool True),
           (''maxRetries'', if m = JUndefined then JNum (Num 3) else m),
           (''retryDelay'', if d = JUndefined then JNum (Num 5000) else d)]"

text \<open>
  \<open>processQueue\<close> up to its \<open>await\<close> (lines 70-82): the guard, the counter, the head
  of the queue, and the call of the job body.
\<close>

definition processQueue :: "TaskQueue \<Rightarrow> TaskQueue" where
  "processQueue q =
     (if queue q = [] \<or> activeTasks q \<ge> maxConcurrent q then q
      else
        let task = hd (queue q)
        in q\<lparr>processing := True,
             activeTasks := activeTasks q + 1,
             queue := tl (queue q),
             running := running q @ [task\<lparr>calls := calls task + 1\<rparr>]\<rparr>)"

text \<open>Lines 24-27 of \<open>addTask\<close>: the options and the arguments left for the job.\<close>

definition task_options :: "jsval list \<Rightarrow> js_error + (jsval \<times> jsval list)" where
  "task_options as =
     (let options = JObj [(''maxRetries'', JNum (Num 3)), (''retryDelay'', JNum (Num 5000))]
      in if as \<noteq> [] \<and> typeof (last as) = ''object''
         then (case get_prop (last as) ''_isTaskOptions'' of
                 Inl e \<Rightarrow> Inl e
               | Inr flag \<Rightarrow>
                   if truthy flag then Inr (last as, butlast as) else Inr (options, as))
         else Inr (options, as))"

text \<open>
  Lines 30-40: the task object. The clock is read twice, for the id and for
  \<open>addedAt\<close>. \<open>maxRetries\<close> and \<open>retryDelay\<close> keep any truthy value of the options,
  of whatever type, and take the default otherwise.
\<close>

definition new_task ::
  "nat \<Rightarrow> string \<Rightarrow> nat \<Rightarrow> string \<Rightarrow> jsval \<Rightarrow> jsval \<Rightarrow> jsval list \<Rightarrow> nat \<Rightarrow> task" where
  "new_task now rnd added name mr rd as h =
     \<lparr>task_id = dec now @ rnd, taskName = name, args = as, addedAt = added,
      retries = 0, maxRetries = js_or mr (JNum (Num 3)),
      retryDelay = js_or rd (JNum (Num 5000)),
      handle = h, calls = 0\<rparr>"

text \<open>Lines 42-48: push the task, and start processing if the queue is not running.\<close>

definition enqueue :: "task \<Rightarrow> TaskQueue \<Rightarrow> TaskQueue" where
  "enqueue t q =
     (let q1 = q\<lparr>queue := queue q @ [t], nextHandle := Suc (nextHandle q)\<rparr>
      in if \<not> processing q1 then processQueue q1 else q1)"

text \<open>
  \<open>addTask(taskFn, taskName, ...args)\<close>. \<open>Inl\<close> is an exception thrown in the body of
  the async function: the promise \<open>addTask\<close> returns is rejected with it and no task
  is created.
\<close>

definition addTask ::
  "nat \<Rightarrow> string \<Rightarrow> nat \<Rightarrow> string \<Rightarrow> jsval list \<Rightarrow> TaskQueue \<Rightarrow> js_error + TaskQueue" where
  "addTask now rnd added name as q =
     (case task_options as of
        Inl e \<Rightarrow> Inl e
      | Inr (options, as') \<Rightarrow>
          (case get_prop options ''maxRetries'' of
             Inl e \<Rightarrow> Inl e
           | Inr mr \<Rightarrow>
               (case get_prop options ''retryDelay'' of
                  Inl e \<Rightarrow> Inl e
                | Inr rd \<Rightarrow>
                    Inr (enqueue (new_task now rnd added name mr rd as' (nextHandle q)) q))))"

text \<open>What one invocation of the job body ends with.\<close>

datatype outcome = Returned jsval | Thrown jsval

text \<open>
  Lines 83-107, after the \<open>await\<close>: resolve with the result, or in the \<open>catch\<close> block
  schedule the retry or resolve with the failure value. The test
  \<open>task.retries < task.maxRetries\<close> converts \<open>maxRetries\<close> to a number.
  \<open>error.message\<close> is read only in the last branch; when that read throws, the
  exception leaves the \<open>catch\<close> block and \<open>task.resolve\<close> is not reached.
\<close>

definition after_await :: "task \<Rightarrow> outcome \<Rightarrow> TaskQueue \<Rightarrow> TaskQueue" where
  "after_await t out q =
     (case out of
        Returned v \<Rightarrow> q\<lparr>settled := settled q @ [(t, v)]\<rparr>
      | Thrown err \<Rightarrow>
          if js_less (Num (of_nat (retries t))) (ToNumber (maxRetries t))
          then q\<lparr>timers := timers q @ [t\<lparr>retries := retries t + 1\<rparr>]\<rparr>
          else (case get_prop err ''message'' of
                  Inl e \<Rightarrow> q\<lparr>escaped := escaped q @ [e]\<rparr>
                | Inr m \<Rightarrow>
                    q\<lparr>settled := settled q @
                       [(t, JObj [(''error'', m),
                                  (''retries'', JNum (Num (of_nat (retries t)))),
                                  (''failed'', JBool True)])]\<rparr>))"

text \<open>Lines 108-122, the \<open>finally\<close> block; it runs on every path of the above.\<close>

definition finally_block :: "TaskQueue \<Rightarrow> TaskQueue" where
  "finally_block q0 =
     (let q1 = q0\<lparr>activeTasks := activeTasks q0 - 1\<rparr>;
          q2 = (if queue q1 \<noteq> [] then processQueue q1
                else if activeTasks q1 = 0 then q1\<lparr>processing := False\<rparr>
                else q1)
      in if activeTasks q2 < maxConcurrent q2 \<and> queue q2 \<noteq> [] then processQueue q2 else q2)"

text \<open>The body of the \<open>i\<close>-th running task ends with \<open>out\<close>.\<close>

definition complete :: "nat \<Rightarrow> outcome \<Rightarrow> TaskQueue \<Rightarrow> TaskQueue" where
  "complete i out q =
     (if i < length (running q)
      then finally_block
             (after_await (running q ! i) out
                (q\<lparr>running := take i (running q) @ drop (Suc i) (running q)\<rparr>))
      else q)"

text \<open>The \<open>k\<close>-th pending timer fires (lines 96-103).\<close>

definition timer_fires :: "nat \<Rightarrow> TaskQueue \<Rightarrow> TaskQueue" where
  "timer_fires k q =
     (if k < length (timers q)
      then
        let q1 = q\<lparr>timers := take k (timers q) @ drop (Suc k) (timers q),
                   queue := queue q @ [timers q ! k]\<rparr>
        in if \<not> processing q1 then processQueue q1 else q1
      else q)"

text \<open>
  Everything that happens to the queue is one of three events, each run to its next
  suspension point, in any order: a call of \<open>addTask\<close>, the end of a running job body,
  a retry timer firing. JavaScript runs each of them without interruption, so the
  states between events are the ones any other code can observe. A job body is an
  async function, as every job of the email service is: it returns a promise, so its
  failure reaches \<open>processQueue\<close> after the \<open>await\<close>, and it is taken not to call
  the queue before its first suspension point. An \<open>addTask\<close> that throws leaves the
  queue as it was.
\<close>

datatype event =
    Submit nat string nat string "jsval list"
  | Finish nat outcome
  | Timer nat

fun step :: "event \<Rightarrow> TaskQueue \<Rightarrow> TaskQueue" where
  "step (Submit now rnd added name as) q =
     (case addTask now rnd added name as q of Inl e \<Rightarrow> q | Inr q' \<Rightarrow> q')"
| "step (Finish i out) q = complete i out q"
| "step (Timer k) q = timer_fires k q"

definition run :: "event list \<Rightarrow> TaskQueue \<Rightarrow> TaskQueue" where
  "run evs q = foldl (\<lambda>s e. step e s) q evs"

text \<open>
  The condition of line 25: the last argument is an object whose \<open>_isTaskOptions\<close> is
  truthy.
\<close>

definition explicit_options :: "jsval list \<Rightarrow> bool" where
  "explicit_options as \<longleftrightarrow>
     as \<noteq> [] \<and> typeof (last as) = ''object'' \<and>
     (case get_prop (last as) ''_isTaskOptions'' of Inl e \<Rightarrow> False | Inr flag \<Rightarrow> truthy flag)"



text \<open>
  The invariants of the queue used in the proofs below. \<open>granted\<close>: every retry a
  task has had passed the test of line 91.
\<close>

definition bounded :: "TaskQueue \<Rightarrow> bool" where
  "bounded q \<longleftrightarrow>
     maxConcurrent q = 3 \<and> activeTasks q = int (length (running q)) \<and> activeTasks q \<le> 3"

definition granted :: "task \<Rightarrow> bool" where
  "granted t \<longleftrightarrow>
     retries t = 0 \<or> js_less (Num (of_nat (retries t - 1))) (ToNumber (maxRetries t))"







section \<open>The attempt logger (services/emailLogger.js)\<close>

text \<open>
  A log entry, with the fields of \<open>logEntry\<close> in \<open>logEmailAttempt\<close>. \<open>None\<close> is
  \<open>null\<close> or \<open>undefined\<close>. The timestamp is the instant read from the clock; its
  rendering as an ISO string is not modelled.
\<close>

record logEntry =
  log_id :: string
  timestamp :: nat
  log_type :: string
  log_to :: string
  log_subject :: string
  log_orderId :: "string option"
  status :: string
  log_messageId :: "string option"
  log_error :: "string option"
  retryCount :: nat

text \<open>The argument of \<open>logEmailAttempt\<close>, with the properties it reads.\<close>

record emailData =
  ed_type :: "string option"
  ed_to :: string
  ed_subject :: string
  ed_orderId :: "string option"
  ed_success :: bool
  ed_messageId :: "string option"
  ed_error :: "string option"
  ed_retryCount :: "nat option"

text \<open>
  The file \<open>email-logs.json\<close> as the logger sees it: absent, not parsable as JSON,
  JSON that is not an array, or an array of entries.
\<close>

datatype log_file = Missing | Unparsable | NotAnArray | Entries "logEntry list"

record EmailLogger =
  memoryLogs :: "logEntry list"
  maxMemoryLogs :: nat
  initialized :: bool
  logFile :: log_file

text \<open>The constructor; the file on disk is whatever it is when the process starts.\<close>

definition EmailLogger_new :: "log_file \<Rightarrow> EmailLogger" where
  "EmailLogger_new f = \<lparr>memoryLogs = [], maxMemoryLogs = 100, initialized = False, logFile = f\<rparr>"

text \<open>
  What one call of \<open>logEmailAttempt\<close> takes from outside: the two clock readings, the
  random suffix of the id, and whether reading and writing the file succeed.
\<close>

record log_env =
  le_now :: nat
  le_rnd :: string
  le_stamp :: nat
  read_ok :: bool
  write_ok :: bool

text \<open>\<open>s || d\<close> and \<open>s || null\<close> on an optional string: the empty string is falsy.\<close>

definition str_or :: "string option \<Rightarrow> string \<Rightarrow> string" where
  "str_or v d = (case v of None \<Rightarrow> d | Some s \<Rightarrow> if s = [] then d else s)"

definition or_null :: "string option \<Rightarrow> string option" where
  "or_null v = (case v of None \<Rightarrow> None | Some s \<Rightarrow> if s = [] then None else Some s)"

text \<open>Lines 115-126: the entry.\<close>

definition logEntry_of :: "log_env \<Rightarrow> emailData \<Rightarrow> logEntry" where
  "logEntry_of env d =
     \<lparr>log_id = ''email_'' @ dec (le_now env) @ ''_'' @ le_rnd env,
      timestamp = le_stamp env,
      log_type = str_or (ed_type d) ''unknown'',
      log_to = ed_to d,
      log_subject = ed_subject d,
      log_orderId = ed_orderId d,
      status = (if ed_success d then ''success'' else ''failed''),
      log_messageId = or_null (ed_messageId d),
      log_error = or_null (ed_error d),
      retryCount = (case ed_retryCount d of None \<Rightarrow> 0 | Some n \<Rightarrow> n)\<rparr>"

text \<open>
  Lines 128-134: the in-memory list. This runs when \<open>logEmailAttempt\<close> is called,
  before its first suspension point.
\<close>

definition remember :: "logEntry \<Rightarrow> EmailLogger \<Rightarrow> EmailLogger" where
  "remember e L =
     (let mem = e # memoryLogs L
      in L\<lparr>memoryLogs :=
             (if length mem > maxMemoryLogs L then take (maxMemoryLogs L) mem else mem)\<rparr>)"

text \<open>
  Lines 140-155: what a call that has read the file as \<open>f\<close> goes on to write. \<open>None\<close>:
  the read failed, or \<open>unshift\<close> threw on a value that is not an array; the exception
  is caught and nothing is written. A file that does not parse starts a fresh array.
\<close>

definition after_read :: "log_env \<Rightarrow> logEntry \<Rightarrow> log_file \<Rightarrow> log_file option" where
  "after_read env e f =
     (if \<not> read_ok env then None
      else case f of
        Missing \<Rightarrow> None
      | NotAnArray \<Rightarrow> None
      | Unparsable \<Rightarrow> Some (Entries [e])
      | Entries logs \<Rightarrow>
          let logs1 = e # logs
          in Some (Entries (if length logs1 > 500 then take 500 logs1 else logs1)))"

text \<open>Line 158: the write replaces the file; a write that fails is caught.\<close>

definition after_write :: "log_env \<Rightarrow> log_file \<Rightarrow> log_file \<Rightarrow> log_file" where
  "after_write env content f = (if write_ok env then content else f)"

text \<open>
  \<open>logEmailAttempt(emailData)\<close> from its call to its end, when no other call of the
  logger runs in between its read and its write, as within one pass of one job taken
  alone. The calls of jobs that run at the same time are the events further down; a
  call taken alone is three of these events in a row (lemma \<open>call_alone\<close>).
\<close>

definition write_file :: "log_env \<Rightarrow> logEntry \<Rightarrow> log_file \<Rightarrow> log_file" where
  "write_file env e f =
     (case after_read env e f of None \<Rightarrow> f | Some content \<Rightarrow> after_write env content f)"

definition logEmailAttempt :: "log_env \<Rightarrow> emailData \<Rightarrow> EmailLogger \<Rightarrow> logEntry \<times> EmailLogger" where
  "logEmailAttempt env d L =
     (let e = logEntry_of env d;
          L1 = remember e L
      in (e, if initialized L1 then L1\<lparr>logFile := write_file env e (logFile L1)\<rparr> else L1))"

text \<open>
  \<open>getStats()\<close>. The logger is returned with the statistics, so that what the call
  does to it is part of the model. \<open>toFixed\<close> stands for
  \<open>((success / total) * 100).toFixed(2)\<close>, a floating-point rendering that is left to
  the caller of the model.
\<close>

record stats =
  total :: nat
  success_count :: nat
  failed :: nat
  successRate :: string
  lastAttempt :: "nat option"

definition getStats :: "(nat \<Rightarrow> nat \<Rightarrow> string) \<Rightarrow> EmailLogger \<Rightarrow> stats \<times> EmailLogger" where
  "getStats toFixed L =
     (let total = length (memoryLogs L);
          success = length (filter (\<lambda>log. status log = ''success'') (memoryLogs L));
          failed = total - success
      in (\<lparr>total = total, success_count = success, failed = failed,
           successRate = (if total \<noteq> 0 then toFixed success total @ ''%'' else ''0%''),
           lastAttempt = (case memoryLogs L of [] \<Rightarrow> None | e # _ \<Rightarrow> Some (timestamp e))\<rparr>,
          L))"


section \<open>The delivery tiers and the orchestrator\<close>

text \<open>
  The transports are collaborators: \<open>transporter.sendMail\<close> either resolves with a
  result carrying a \<open>messageId\<close> or rejects with an error carrying a \<open>message\<close>.
\<close>

datatype send_outcome = Sent string | SendError string

datatype tier = Primary | Fallback | Simulated

record mailOptions =
  mo_from :: string
  mo_to :: string
  mo_subject :: string
  mo_html :: string

text \<open>
  The metadata object spread into the logged data: the keys the callers set (\<open>type\<close>,
  \<open>orderId\<close>, \<open>retryCount\<close>) and the two keys of \<open>emailData\<close> a tier does not always
  overwrite.
\<close>

record metadata =
  md_type :: "string option"
  md_orderId :: "string option"
  md_retryCount :: "nat option"
  md_messageId :: "string option"
  md_error :: "string option"

record send_result =
  success :: bool
  messageId :: "string option"
  error :: "string option"
  usingFallback :: bool
  simulated :: bool

record EmailFallbackService =
  fallbackUsed :: nat
  fallbackSuccess :: nat

record NoopEmailService =
  active :: bool

text \<open>The constructors: no fallback use yet, the simulated tier not active.\<close>

definition EmailFallbackService_new :: EmailFallbackService where
  "EmailFallbackService_new = \<lparr>fallbackUsed = 0, fallbackSuccess = 0\<rparr>"

definition NoopEmailService_new :: NoopEmailService where
  "NoopEmailService_new = \<lparr>active = False\<rparr>"

text \<open>
  The three singletons the orchestrator works on. \<open>attempts\<close> is bookkeeping of the
  model: the tiers whose \<open>sendMail\<close> was called, in order.
\<close>

record services =
  emailLogger :: EmailLogger
  emailFallback :: EmailFallbackService
  noopEmailService :: NoopEmailService
  attempts :: "tier list"

text \<open>\<open>NoopEmailService.activate()\<close>, the only assignment of \<open>true\<close> to the flag.\<close>

definition activate :: "services \<Rightarrow> services" where
  "activate W = W\<lparr>noopEmailService := (noopEmailService W)\<lparr>active := True\<rparr>\<rparr>"

text \<open>\<open>emailLogger.logEmailAttempt(data)\<close> on the shared logger; the entry it returns is dropped.\<close>

definition log_attempt :: "log_env \<Rightarrow> emailData \<Rightarrow> services \<Rightarrow> services" where
  "log_attempt env d W = W\<lparr>emailLogger := snd (logEmailAttempt env d (emailLogger W))\<rparr>"

text \<open>
  The object literal every tier hands to the logger: the metadata spread first, then
  \<open>to\<close> and \<open>subject\<close> of the mail, \<open>success\<close>, and \<open>messageId\<close> or \<open>error\<close>; the
  one of these two that the literal does not set comes from the metadata.
\<close>

definition logged_data ::
  "mailOptions \<Rightarrow> metadata \<Rightarrow> bool \<Rightarrow> string option \<Rightarrow> string option \<Rightarrow> emailData" where
  "logged_data mo md ok mid err =
     \<lparr>ed_type = md_type md, ed_to = mo_to mo, ed_subject = mo_subject mo,
      ed_orderId = md_orderId md, ed_success = ok, ed_messageId = mid, ed_error = err,
      ed_retryCount = md_retryCount md\<rparr>"

text \<open>\<open>EmailFallbackService.sendMail(mailOptions, metadata)\<close> (emailFallbackService.js, lines 51-90).\<close>

definition fallback_sendMail ::
  "send_outcome \<Rightarrow> log_env \<Rightarrow> mailOptions \<Rightarrow> metadata \<Rightarrow> services \<Rightarrow> send_result \<times> services" where
  "fallback_sendMail out env mo md W =
     (let W1 = W\<lparr>emailFallback :=
                   (emailFallback W)\<lparr>fallbackUsed := fallbackUsed (emailFallback W) + 1\<rparr>,
                 attempts := attempts W @ [Fallback]\<rparr>
      in case out of
           Sent mid \<Rightarrow>
             let W2 = W1\<lparr>emailFallback :=
                        (emailFallback W1)\<lparr>fallbackSuccess := fallbackSuccess (emailFallback W1) + 1\<rparr>\<rparr>
             in (\<lparr>success = True, messageId = Some mid, error = None,
                  usingFallback = True, simulated = False\<rparr>,
                 log_attempt env (logged_data mo md True (Some mid) (md_error md)) W2)
         | SendError msg \<Rightarrow>
             (\<lparr>success = False, messageId = None, error = Some msg,
               usingFallback = True, simulated = False\<rparr>,
              log_attempt env (logged_data mo md False (md_messageId md) (Some msg)) W1))"

text \<open>
  \<open>NoopEmailService.sendMail(mailOptions, metadata)\<close> (noopEmailService.js, lines 29-51);
  \<open>now\<close> and \<open>rnd\<close> are the clock reading and the random suffix of the message id.
\<close>

definition noop_messageId :: "nat \<Rightarrow> string \<Rightarrow> string" where
  "noop_messageId now rnd = ''noop-'' @ dec now @ ''-'' @ rnd @ ''@simulated.local''"

definition noop_sendMail ::
  "nat \<Rightarrow> string \<Rightarrow> log_env \<Rightarrow> mailOptions \<Rightarrow> metadata \<Rightarrow> services \<Rightarrow> send_result \<times> services" where
  "noop_sendMail now rnd env mo md W =
     (let mid = noop_messageId now rnd;
          W1 = W\<lparr>attempts := attempts W @ [Simulated]\<rparr>
      in (\<lparr>success = True, messageId = Some mid, error = None,
           usingFallback = False, simulated = True\<rparr>,
          log_attempt env (logged_data mo md True (Some mid) (md_error md)) W1))"

text \<open>The order fields the job reads, and what one pass takes from outside.\<close>

record order =
  customer_email :: string
  orderId :: string

record pass_env =
  config_from :: string
  template :: string
  primary_out :: send_outcome
  fallback_out :: send_outcome
  log1 :: log_env
  log2 :: log_env
  noop_now :: nat
  noop_rnd :: string

text \<open>
  The job queued by \<open>sendCustomerOrderConfirmation\<close> (emailService.js, lines 105-189).
  The error thrown after a failed fallback is caught two lines below, so its message is
  the one that is logged and returned. A pass logs at most twice: \<open>log1\<close> is the
  environment of the first call of the logger, \<open>log2\<close> of the second.
\<close>

definition customer_confirmation_job ::
  "pass_env \<Rightarrow> order \<Rightarrow> services \<Rightarrow> send_result \<times> services" where
  "customer_confirmation_job env orderData W =
     (let mo = \<lparr>mo_from = config_from env, mo_to = customer_email orderData,
                mo_subject = ''Order Confirmation - '' @ orderId orderData,
                mo_html = template env\<rparr>;
          md = \<lparr>md_type = Some ''customer_confirmation'', md_orderId = Some (orderId orderData),
                md_retryCount = Some 0, md_messageId = None, md_error = None\<rparr>;
          W1 = W\<lparr>attempts := attempts W @ [Primary]\<rparr>
      in case primary_out env of
           Sent mid \<Rightarrow>
             (\<lparr>success = True, messageId = Some mid, error = None,
               usingFallback = False, simulated = False\<rparr>,
              log_attempt (log1 env) (logged_data mo md True (Some mid) (md_error md)) W1)
         | SendError primaryError \<Rightarrow>
             let (fallbackResult, W2) =
                   fallback_sendMail (fallback_out env) (log1 env) mo
                     (md\<lparr>md_retryCount := Some 1\<rparr>) W1
             in if success fallbackResult then (fallbackResult, W2)
                else
                  let fallbackError = ''Both primary and fallback email delivery failed''
                  in if active (noopEmailService W2)
                     then noop_sendMail (noop_now env) (noop_rnd env) (log2 env) mo
                            (md\<lparr>md_retryCount := Some 2\<rparr>) W2
                     else
                       (\<lparr>success = False, messageId = None,
                         error = Some (str_or (Some fallbackError) ''Both delivery methods failed''),
                         usingFallback = False, simulated = False\<rparr>,
                        log_attempt (log2 env)
                          (logged_data mo md False (md_messageId md)
                             (Some (str_or (Some fallbackError) ''Both delivery methods failed'')))
                          W2))"

text \<open>
  The logger over time. \<open>init\<close> and \<open>logEmailAttempt\<close> are async: a call runs to its
  next suspension point, other calls run, and it goes on when the file operation it
  waits for is done. The queue runs up to three jobs at a time, so calls of
  \<open>logEmailAttempt\<close> overlap. Besides the logger, the state holds the calls that are
  suspended: \<open>creating\<close> counts the calls of \<open>init\<close> waiting for the write that
  creates the file, \<open>reading\<close> are the calls of \<open>logEmailAttempt\<close> waiting for
  \<open>readFile\<close>, each with its entry, \<open>writing\<close> those waiting for \<open>writeFile\<close>, each
  with the content it writes.
\<close>

record logger_sys =
  logger :: EmailLogger
  creating :: nat
  reading :: "(log_env \<times> logEntry) list"
  writing :: "(log_env \<times> log_file) list"

definition logger_start :: "log_file \<Rightarrow> logger_sys" where
  "logger_start f = \<lparr>logger = EmailLogger_new f, creating = 0, reading = [], writing = []\<rparr>"

text \<open>
  \<open>init()\<close> up to the answer of \<open>fs.access\<close>: when the file is there the logger is
  initialized, otherwise the call goes on to create the file.
\<close>

definition init_access :: "bool \<Rightarrow> logger_sys \<Rightarrow> logger_sys" where
  "init_access access_ok S =
     (if access_ok \<and> logFile (logger S) \<noteq> Missing
      then S\<lparr>logger := (logger S)\<lparr>initialized := True\<rparr>\<rparr>
      else S\<lparr>creating := creating S + 1\<rparr>)"

text \<open>
  The write of \<open>init()\<close> is done: the file is an empty array and the logger is
  initialized; when the write fails the outer \<open>catch\<close> leaves \<open>initialized\<close> as it is.
\<close>

definition init_write :: "bool \<Rightarrow> logger_sys \<Rightarrow> logger_sys" where
  "init_write ok S =
     (if creating S = 0 then S
      else if ok
        then S\<lparr>creating := creating S - 1,
               logger := (logger S)\<lparr>logFile := Entries [], initialized := True\<rparr>\<rparr>
      else S\<lparr>creating := creating S - 1\<rparr>)"

text \<open>A call of \<open>logEmailAttempt\<close>, up to \<open>readFile\<close>.\<close>

definition call_log :: "log_env \<Rightarrow> emailData \<Rightarrow> logger_sys \<Rightarrow> logger_sys" where
  "call_log env d S =
     (let e = logEntry_of env d;
          S1 = S\<lparr>logger := remember e (logger S)\<rparr>
      in if initialized (logger S1) then S1\<lparr>reading := reading S1 @ [(env, e)]\<rparr> else S1)"

text \<open>The read of the \<open>k\<close>-th reading call is done: it sees the file as it is now.\<close>

definition read_done :: "nat \<Rightarrow> logger_sys \<Rightarrow> logger_sys" where
  "read_done k S =
     (if k < length (reading S)
      then
        let (env, e) = reading S ! k;
            S1 = S\<lparr>reading := take k (reading S) @ drop (Suc k) (reading S)\<rparr>
        in case after_read env e (logFile (logger S)) of
             None \<Rightarrow> S1
           | Some content \<Rightarrow> S1\<lparr>writing := writing S1 @ [(env, content)]\<rparr>
      else S)"

text \<open>
  The write of the \<open>k\<close>-th writing call is done: the file is what that call wrote,
  whatever other calls have written since it read. The write replaces the file in one
  step; a read that meets a half-written file is not modelled.
\<close>

definition write_done :: "nat \<Rightarrow> logger_sys \<Rightarrow> logger_sys" where
  "write_done k S =
     (if k < length (writing S)
      then
        let (env, content) = writing S ! k
        in S\<lparr>writing := take k (writing S) @ drop (Suc k) (writing S),
             logger := (logger S)\<lparr>logFile := after_write env content (logFile (logger S))\<rparr>\<rparr>
      else S)"

datatype logger_event =
    InitAccess bool
  | InitWrite bool
  | Call log_env emailData
  | ReadDone nat
  | WriteDone nat

fun logger_step :: "logger_event \<Rightarrow> logger_sys \<Rightarrow> logger_sys" where
  "logger_step (InitAccess ok) S = init_access ok S"
| "logger_step (InitWrite ok) S = init_write ok S"
| "logger_step (Call env d) S = call_log env d S"
| "logger_step (ReadDone k) S = read_done k S"
| "logger_step (WriteDone k) S = write_done k S"

definition logger_run :: "logger_event list \<Rightarrow> logger_sys \<Rightarrow> logger_sys" where
  "logger_run evs S = foldl (\<lambda>s e. logger_step e s) S evs"

text \<open>
  \<open>logged\<close> lists the entries of the calls of \<open>logEmailAttempt\<close>, oldest first;
  \<open>stored\<close> counts the entries of the file, \<open>entries_of\<close> lists them.
\<close>

fun logged :: "logger_event list \<Rightarrow> logEntry list" where
  "logged [] = []"
| "logged (Call env d # evs) = logEntry_of env d # logged evs"
| "logged (ev # evs) = logged evs"

fun stored :: "log_file \<Rightarrow> nat" where
  "stored (Entries logs) = length logs"
| "stored f = 0"

fun entries_of :: "log_file \<Rightarrow> logEntry list" where
  "entries_of (Entries logs) = logs"
| "entries_of f = []"

text \<open>The invariant of the file: it, and everything about to be written, holds at most 500.\<close>

definition capped :: "logger_sys \<Rightarrow> bool" where
  "capped S \<longleftrightarrow>
     stored (logFile (logger S)) \<le> 500 \<and>
     list_all (\<lambda>(env, content). stored content \<le> 500) (writing S)"

section \<open>Properties of the task queue\<close>

subsection \<open>How the operations change the queue\<close>

lemma new_task_fields:
  "handle (new_task now rnd added name mr rd as h) = h"
  "retries (new_task now rnd added name mr rd as h) = 0"
  "calls (new_task now rnd added name mr rd as h) = 0"
  "args (new_task now rnd added name mr rd as h) = as"
  "maxRetries (new_task now rnd added name mr rd as h) = js_or mr (JNum (Num 3))"
  "retryDelay (new_task now rnd added name mr rd as h) = js_or rd (JNum (Num 5000))"
  "taskName (new_task now rnd added name mr rd as h) = name"
  by (simp_all add: new_task_def)

lemma addTask_Inr:
  assumes "addTask now rnd added name as q = Inr q'"
  shows "\<exists>mr rd as'. q' = enqueue (new_task now rnd added name mr rd as' (nextHandle q)) q"
  using assms unfolding addTask_def
  by (auto split: sum.splits prod.splits)

lemma after_await_cases:
  obtains (settle) v where "after_await t out q = q\<lparr>settled := settled q @ [(t, v)]\<rparr>"
  | (retry) "js_less (Num (of_nat (retries t))) (ToNumber (maxRetries t))"
      "after_await t out q = q\<lparr>timers := timers q @ [t\<lparr>retries := retries t + 1\<rparr>]\<rparr>"
  | (escape) e where "after_await t out q = q\<lparr>escaped := escaped q @ [e]\<rparr>"
proof (cases out)
  case (Returned v)
  then show ?thesis using settle by (simp add: after_await_def)
next
  case (Thrown err)
  show ?thesis
  proof (cases "js_less (Num (of_nat (retries t))) (ToNumber (maxRetries t))")
    case True
    then show ?thesis using Thrown retry by (simp add: after_await_def)
  next
    case False
    show ?thesis
    proof (cases "get_prop err ''message''")
      case (Inl e)
      then show ?thesis using Thrown False escape by (simp add: after_await_def)
    next
      case (Inr m)
      then show ?thesis using Thrown False settle by (simp add: after_await_def)
    qed
  qed
qed

lemma timer_requeue:
  assumes "k < length (timers q)"
  shows "timer_fires k q =
    (let q1 = q\<lparr>timers := take k (timers q) @ drop (Suc k) (timers q),
                queue := queue q @ [timers q ! k]\<rparr>
     in if \<not> processing q1 then processQueue q1 else q1)"
  using assms by (simp add: timer_fires_def)

text \<open>
  A task that has had every retry granted by the test of line 91, and whose maximum
  is a natural number, has had at most that many.
\<close>

lemma granted_bound:
  assumes "granted t" "ToNumber (maxRetries t) = Num (of_nat n)"
  shows "retries t \<le> n"
proof (cases "retries t")
  case 0
  then show ?thesis by simp
next
  case (Suc k)
  then have "js_less (Num (of_nat k)) (Num (of_nat n))"
    using assms by (simp add: granted_def)
  then have "k < n" by simp
  then show ?thesis using Suc by simp
qed

text \<open>
  On retry exhaustion, when the thrown value has a readable \<open>message\<close>, the promise is
  resolved with the failure value; when the maximum is a natural number, its
  \<open>retries\<close> is that maximum.
\<close>

lemma terminal_failure_value:
  assumes "granted t" "ToNumber (maxRetries t) = Num (of_nat n)"
    and "get_prop err ''message'' = Inr m"
    and "\<not> js_less (Num (of_nat (retries t))) (ToNumber (maxRetries t))"
  shows "after_await t (Thrown err) q =
           q\<lparr>settled := settled q @
               [(t, JObj [(''error'', m), (''retries'', JNum (Num (of_nat n))),
                          (''failed'', JBool True)])]\<rparr>"
proof -
  have "retries t \<le> n" using assms(1,2) by (rule granted_bound)
  moreover have "\<not> retries t < n" using assms(2,4) by simp
  ultimately have "retries t = n" by simp
  then show ?thesis using assms(3,4) by (simp add: after_await_def)
qed

subsection \<open>The concurrency ceiling\<close>

lemma bounded_new: "bounded TaskQueue_new"
  by (simp add: bounded_def TaskQueue_new_def)

lemma bounded_processQueue: "bounded q \<Longrightarrow> bounded (processQueue q)"
  by (auto simp: bounded_def processQueue_def Let_def)

lemma bounded_enqueue: "bounded q \<Longrightarrow> bounded (enqueue t q)"
proof -
  assume b: "bounded q"
  have "bounded (q\<lparr>queue := queue q @ [t], nextHandle := Suc (nextHandle q)\<rparr>)"
    using b by (simp add: bounded_def)
  then show ?thesis
    by (simp add: enqueue_def Let_def bounded_processQueue del: TaskQueue.simps)
qed

lemma bounded_addTask:
  "bounded q \<Longrightarrow> addTask now rnd added name as q = Inr q' \<Longrightarrow> bounded q'"
  by (auto dest!: addTask_Inr intro!: bounded_enqueue)

lemma bounded_finally:
  assumes "maxConcurrent q = 3" "activeTasks q = int (length (running q)) + 1"
    and "activeTasks q \<le> 3"
  shows "bounded (finally_block q)"
proof -
  let ?q1 = "q\<lparr>activeTasks := activeTasks q - 1\<rparr>"
  have b1: "bounded ?q1" using assms by (simp add: bounded_def)
  have b1': "bounded (?q1\<lparr>processing := False\<rparr>)" using assms by (simp add: bounded_def)
  show ?thesis
    unfolding finally_block_def Let_def
    using b1 b1' by (auto intro!: bounded_processQueue)
qed

lemma bounded_complete: "bounded q \<Longrightarrow> bounded (complete i out q)"
proof -
  assume b: "bounded q"
  show ?thesis
  proof (cases "i < length (running q)")
    case False
    then show ?thesis using b by (simp add: complete_def)
  next
    case True
    let ?q0 = "q\<lparr>running := take i (running q) @ drop (Suc i) (running q)\<rparr>"
    let ?q' = "after_await (running q ! i) out ?q0"
    have pre: "maxConcurrent ?q0 = 3 \<and> activeTasks ?q0 = int (length (running ?q0)) + 1 \<and>
               activeTasks ?q0 \<le> 3"
      using b True by (auto simp: bounded_def)
    have "maxConcurrent ?q' = 3 \<and> activeTasks ?q' = int (length (running ?q')) + 1 \<and>
          activeTasks ?q' \<le> 3"
    proof (rule after_await_cases [where t = "running q ! i" and out = out and q = ?q0],
        goal_cases settle retry escape)
      case (settle v)
      then show ?case using pre by simp
    next
      case retry
      then show ?case using pre by simp
    next
      case (escape e)
      then show ?case using pre by simp
    qed
    then have "bounded (finally_block ?q')" by (intro bounded_finally) simp_all
    then show ?thesis using True by (simp add: complete_def)
  qed
qed

lemma bounded_timer: "bounded q \<Longrightarrow> bounded (timer_fires k q)"
proof -
  assume b: "bounded q"
  show ?thesis
  proof (cases "k < length (timers q)")
    case False
    then show ?thesis using b by (simp add: timer_fires_def)
  next
    case True
    have "bounded (q\<lparr>timers := take k (timers q) @ drop (Suc k) (timers q),
                     queue := queue q @ [timers q ! k]\<rparr>)"
      using b by (simp add: bounded_def)
    then show ?thesis
      by (simp add: timer_requeue [OF True] Let_def bounded_processQueue del: TaskQueue.simps)
  qed
qed

lemma bounded_step: "bounded q \<Longrightarrow> bounded (step e q)"
  by (cases e) (auto simp: bounded_complete bounded_timer bounded_addTask split: sum.splits)

lemma bounded_run: "bounded q \<Longrightarrow> bounded (run evs q)"
  unfolding run_def by (induction evs arbitrary: q) (auto simp: bounded_step)

text \<open>
  Claim C5. After any sequence of submissions, job completions (successes and
  failures) and retry timers, the active-task counter is at most the concurrency
  ceiling, which is 3, and it is the number of job bodies that are executing.
\<close>

theorem active_tasks_bounded:
  "maxConcurrent (run evs TaskQueue_new) = 3 \<and>
   activeTasks (run evs TaskQueue_new) \<le> maxConcurrent (run evs TaskQueue_new) \<and>
   int (length (running (run evs TaskQueue_new))) = activeTasks (run evs TaskQueue_new)"
  using bounded_run [OF bounded_new, of evs] by (simp add: bounded_def)

lemmas queue_eval =
  run_def addTask_def task_options_def enqueue_def processQueue_def new_task_def
  complete_def timer_fires_def after_await_def finally_block_def TaskQueue_new_def
  lookup_def createTaskOptions_def js_or_def

text \<open>
  Five jobs are submitted and two of them finish: three job bodies are executing.
\<close>

theorem active_tasks_bounded_witness:
  "activeTasks
     (run [Submit 1 ''a'' 1 ''job'' [], Submit 2 ''b'' 2 ''job'' [], Submit 3 ''c'' 3 ''job'' [],
           Submit 4 ''d'' 4 ''job'' [], Submit 5 ''e'' 5 ''job'' [],
           Finish 0 (Returned JNull), Finish 0 (Returned JNull)]
        TaskQueue_new) = 3 \<and>
   length (running
     (run [Submit 1 ''a'' 1 ''job'' [], Submit 2 ''b'' 2 ''job'' [], Submit 3 ''c'' 3 ''job'' [],
           Submit 4 ''d'' 4 ''job'' [], Submit 5 ''e'' 5 ''job'' [],
           Finish 0 (Returned JNull), Finish 0 (Returned JNull)]
        TaskQueue_new)) = 3"
proof -
  let ?evs = "[Submit 1 ''a'' 1 ''job'' [], Submit 2 ''b'' 2 ''job'' [], Submit 3 ''c'' 3 ''job'' [],
           Submit 4 ''d'' 4 ''job'' [], Submit 5 ''e'' 5 ''job'' [],
           Finish 0 (Returned JNull), Finish 0 (Returned JNull)]"
  have "activeTasks (run ?evs TaskQueue_new) = 3" by (simp add: queue_eval)
  then show ?thesis using active_tasks_bounded [of ?evs] by simp
qed

subsection \<open>Retries and invocations\<close>






























subsection \<open>The promise returned by \<open>addTask\<close>\<close>

text \<open>
  Claim C3. The claim is that the promise returned by \<open>addTask\<close> never rejects and
  that on retry exhaustion it is resolved with the failure value. The code misses two
  cases. \<open>addTask\<close> tests \<open>typeof\<close> of the last argument against \<open>'object'\<close>, which
  \<open>null\<close> passes, and then reads \<open>_isTaskOptions\<close> of it: a job whose last argument
  is \<open>null\<close> makes \<open>addTask\<close> throw, so the promise it returns is rejected. And the
  \<open>catch\<close> block reads \<open>error.message\<close> on retry exhaustion: when the job body has
  thrown \<open>undefined\<close> (a promise rejected without a reason), that read throws inside
  the \<open>catch\<close> block, the exception leaves \<open>processQueue\<close>, and the promise of the
  job is never resolved though the job is gone from the queue.
\<close>

theorem addTask_rejects_and_job_never_settles:
  "addTask 1 ''a'' 1 ''job'' [JNull] TaskQueue_new = Inl TypeError \<and>
   run [Submit 1 ''a'' 1 ''job'' [createTaskOptions (JNum (Num 1)) JUndefined],
        Finish 0 (Thrown JUndefined), Timer 0, Finish 0 (Thrown JUndefined)] TaskQueue_new =
     \<lparr>queue = [], processing = False, maxConcurrent = 3, activeTasks = 0,
      running = [], timers = [], settled = [], escaped = [TypeError], nextHandle = 1\<rparr>"
  by (simp add: queue_eval)

subsection \<open>Options and defaults of \<open>addTask\<close>\<close>

lemma addTask_default:
  assumes "\<not> explicit_options as" "as = [] \<or> last as \<noteq> JNull"
  shows "addTask now rnd added name as q =
           Inr (enqueue (new_task now rnd added name (JNum (Num 3)) (JNum (Num 5000)) as
                          (nextHandle q)) q)"
proof -
  have "task_options as =
          Inr (JObj [(''maxRetries'', JNum (Num 3)), (''retryDelay'', JNum (Num 5000))], as)"
  proof (cases "as \<noteq> [] \<and> typeof (last as) = ''object''")
    case False
    then show ?thesis by (auto simp: task_options_def)
  next
    case True
    then obtain ps where ps: "last as = JObj ps"
      using assms(2) by (cases "last as") auto
    then show ?thesis using True assms(1)
      by (simp add: task_options_def explicit_options_def)
  qed
  then show ?thesis by (simp add: addTask_def lookup_def)
qed

text \<open>
  Claim C2, as the code has it. A job submitted without a task-options object (no
  argument, or a last argument that is not an object with a truthy \<open>_isTaskOptions\<close>)
  gets a maximum of 3 retries and a retry delay of 5000 milliseconds; the job receives
  all the arguments. The delay of 10000 milliseconds is what the email service passes
  explicitly, not the default.
\<close>

theorem default_retry_settings:
  assumes "\<not> explicit_options as" "as = [] \<or> last as \<noteq> JNull"
  shows "\<exists>t. addTask now rnd added name as q = Inr (enqueue t q) \<and>
             args t = as \<and> retries t = 0 \<and>
             maxRetries t = JNum (Num 3) \<and> retryDelay t = JNum (Num 5000)"
  using addTask_default [OF assms] by (auto simp: new_task_fields js_or_def)

theorem default_retry_settings_witness:
  "\<not> explicit_options [JStr ''order''] \<and>
   ([JStr ''order''] = [] \<or> last [JStr ''order''] \<noteq> JNull) \<and>
   (\<exists>t. addTask 1 ''a'' 1 ''job'' [JStr ''order''] TaskQueue_new = Inr (enqueue t TaskQueue_new) \<and>
        args t = [JStr ''order''] \<and> retries t = 0 \<and>
        maxRetries t = JNum (Num 3) \<and> retryDelay t = JNum (Num 5000))"
proof -
  have h1: "\<not> explicit_options [JStr ''order'']" by (simp add: explicit_options_def)
  have h2: "[JStr ''order''] = [] \<or> last [JStr ''order''] \<noteq> JNull" by simp
  show ?thesis
    using h1 h2 default_retry_settings [OF h1 h2, of 1 "''a''" 1 "''job''" TaskQueue_new]
    by blast
qed

text \<open>
  Claim C2 as stated fails: a job submitted with one plain argument and no options
  object runs with a retry delay of 5000, not 10000.
\<close>

theorem default_retry_delay_counterexample:
  "\<not> explicit_options [JStr ''order''] \<and>
   map retryDelay (running (run [Submit 1 ''a'' 1 ''job'' [JStr ''order'']] TaskQueue_new)) =
     [JNum (Num 5000)] \<and>
   map retryDelay (running (run [Submit 1 ''a'' 1 ''job'' [JStr ''order'']] TaskQueue_new)) \<noteq>
     [JNum (Num 10000)]"
  by (simp add: queue_eval explicit_options_def)

text \<open>
  Claim C9. When the last argument of \<open>addTask\<close> is an object: if its
  \<open>_isTaskOptions\<close> is truthy it is taken off the arguments and read as the options
  (a truthy \<open>maxRetries\<close> or \<open>retryDelay\<close> of it is the task's setting, anything else
  gives the default); otherwise it stays among the arguments of the task and the
  default retry settings apply. So a trailing object is read as options only when the
  property is truthy. The task with these arguments and settings is the one that
  reaches the queue: after the call it is waiting in the queue or its body has been
  called, with these arguments (the tasks in \<open>running\<close> are the calls
  \<open>taskFn(...task.args)\<close> under way). It waits at the end of the queue when the queue
  is processing, and on an idle queue its body is called at once.
\<close>

theorem trailing_object_options:
  assumes "as \<noteq> []" "last as = JObj ps"
  shows "\<exists>q' t. addTask now rnd added name as q = Inr q' \<and>
           handle t = nextHandle q \<and> taskName t = name \<and> retries t = 0 \<and> calls t = 0 \<and>
           (if truthy (lookup ps ''_isTaskOptions'')
            then args t = butlast as \<and>
                 maxRetries t =
                   (if truthy (lookup ps ''maxRetries'') then lookup ps ''maxRetries''
                    else JNum (Num 3)) \<and>
                 retryDelay t =
                   (if truthy (lookup ps ''retryDelay'') then lookup ps ''retryDelay''
                    else JNum (Num 5000))
            else args t = as \<and> maxRetries t = JNum (Num 3) \<and> retryDelay t = JNum (Num 5000)) \<and>
           (t \<in> set (queue q') \<or> t\<lparr>calls := 1\<rparr> \<in> set (running q')) \<and>
           (processing q \<longrightarrow> queue q' = queue q @ [t] \<and> running q' = running q) \<and>
           (\<not> processing q \<and> queue q = [] \<and> activeTasks q < maxConcurrent q \<longrightarrow>
              queue q' = [] \<and> running q' = running q @ [t\<lparr>calls := 1\<rparr>])"
proof -
  define mr rd as' where
    "mr = (if truthy (lookup ps ''_isTaskOptions'') then lookup ps ''maxRetries''
           else JNum (Num 3))"
    and "rd = (if truthy (lookup ps ''_isTaskOptions'') then lookup ps ''retryDelay''
               else JNum (Num 5000))"
    and "as' = (if truthy (lookup ps ''_isTaskOptions'') then butlast as else as)"
  define t where "t = new_task now rnd added name mr rd as' (nextHandle q)"
  have opts: "task_options as =
      Inr (if truthy (lookup ps ''_isTaskOptions'') then JObj ps
           else JObj [(''maxRetries'', JNum (Num 3)), (''retryDelay'', JNum (Num 5000))], as')"
    using assms by (simp add: task_options_def as'_def)
  have res: "addTask now rnd added name as q = Inr (enqueue t q)"
    unfolding addTask_def opts
    by (simp add: t_def mr_def rd_def lookup_def)
  have fields: "handle t = nextHandle q" "taskName t = name" "retries t = 0" "calls t = 0"
    "args t = as'" "maxRetries t = js_or mr (JNum (Num 3))"
    "retryDelay t = js_or rd (JNum (Num 5000))"
    by (simp_all add: t_def new_task_fields)
  have settings:
    "if truthy (lookup ps ''_isTaskOptions'')
     then args t = butlast as \<and>
          maxRetries t =
            (if truthy (lookup ps ''maxRetries'') then lookup ps ''maxRetries''
             else JNum (Num 3)) \<and>
          retryDelay t =
            (if truthy (lookup ps ''retryDelay'') then lookup ps ''retryDelay''
             else JNum (Num 5000))
     else args t = as \<and> maxRetries t = JNum (Num 3) \<and> retryDelay t = JNum (Num 5000)"
    by (simp add: fields mr_def rd_def as'_def js_or_def)
  have holds: "t \<in> set (queue (enqueue t q)) \<or> t\<lparr>calls := 1\<rparr> \<in> set (running (enqueue t q))"
    using fields(4) by (cases "queue q") (auto simp: enqueue_def processQueue_def Let_def)
  have waits: "processing q \<longrightarrow> queue (enqueue t q) = queue q @ [t] \<and>
      running (enqueue t q) = running q"
    by (simp add: enqueue_def)
  have starts: "\<not> processing q \<and> queue q = [] \<and> activeTasks q < maxConcurrent q \<longrightarrow>
      queue (enqueue t q) = [] \<and> running (enqueue t q) = running q @ [t\<lparr>calls := 1\<rparr>]"
    by (simp add: enqueue_def processQueue_def fields)
  show ?thesis
    using res fields(1-4) settings holds waits starts by blast
qed

text \<open>
  On an idle queue, an order object as last argument reaches the job body with the
  default settings; behind it, the options object of \<open>createTaskOptions(3, 10000)\<close>
  is taken off and read, and the body gets the order alone. On a queue that is
  processing a job, the job with the order object waits in the queue, with the order as
  its argument and the default settings.
\<close>

theorem trailing_object_options_witness:
  "[JObj [(''orderId'', JStr ''A1'')]] \<noteq> [] \<and>
   last [JObj [(''orderId'', JStr ''A1'')]] = JObj [(''orderId'', JStr ''A1'')] \<and>
   \<not> processing TaskQueue_new \<and> queue TaskQueue_new = [] \<and>
   activeTasks TaskQueue_new < maxConcurrent TaskQueue_new \<and>
   map (\<lambda>t. (args t, maxRetries t, retryDelay t, calls t))
     (running (run [Submit 1 ''a'' 1 ''job'' [JObj [(''orderId'', JStr ''A1'')]]] TaskQueue_new)) =
     [([JObj [(''orderId'', JStr ''A1'')]], JNum (Num 3), JNum (Num 5000), 1)] \<and>
   map (\<lambda>t. (args t, maxRetries t, retryDelay t, calls t))
     (running (run [Submit 1 ''a'' 1 ''job''
                      [JObj [(''orderId'', JStr ''A1'')],
                       createTaskOptions (JNum (Num 3)) (JNum (Num 10000))]] TaskQueue_new)) =
     [([JObj [(''orderId'', JStr ''A1'')]], JNum (Num 3), JNum (Num 10000), 1)] \<and>
   processing (run [Submit 1 ''a'' 1 ''job'' [JStr ''x'']] TaskQueue_new) \<and>
   map (\<lambda>t. (args t, maxRetries t, retryDelay t, calls t))
     (queue (run [Submit 1 ''a'' 1 ''job'' [JStr ''x''],
                  Submit 4 ''d'' 4 ''job'' [JObj [(''orderId'', JStr ''A1'')]]] TaskQueue_new)) =
     [([JObj [(''orderId'', JStr ''A1'')]], JNum (Num 3), JNum (Num 5000), 0)]"
proof -
  let ?order = "JObj [(''orderId'', JStr ''A1'')]"
  let ?ps = "[(''_isTaskOptions'', JBool True), (''maxRetries'', JNum (Num 3)),
              (''retryDelay'', JNum (Num 10000))]"
  have h1: "[?order] \<noteq> []" by simp
  have h2: "last [?order] = JObj [(''orderId'', JStr ''A1'')]" by simp
  have idle: "\<not> processing TaskQueue_new \<and> queue TaskQueue_new = [] \<and>
      activeTasks TaskQueue_new < maxConcurrent TaskQueue_new"
    by (simp add: TaskQueue_new_def)
  have f: "\<not> truthy (lookup [(''orderId'', JStr ''A1'')] ''_isTaskOptions'')"
    by (simp add: lookup_def)
  obtain q' t where a: "addTask 1 ''a'' 1 ''job'' [?order] TaskQueue_new = Inr q'"
    "args t = [?order]" "maxRetries t = JNum (Num 3)" "retryDelay t = JNum (Num 5000)"
    "running q' = running TaskQueue_new @ [t\<lparr>calls := 1\<rparr>]"
    using f idle trailing_object_options [OF h1 h2, of 1 "''a''" 1 "''job''" TaskQueue_new]
    by auto
  have r1: "map (\<lambda>t. (args t, maxRetries t, retryDelay t, calls t))
     (running (run [Submit 1 ''a'' 1 ''job'' [?order]] TaskQueue_new)) =
     [([?order], JNum (Num 3), JNum (Num 5000), 1)]"
    using a by (simp add: run_def TaskQueue_new_def)
  have k1: "[?order, createTaskOptions (JNum (Num 3)) (JNum (Num 10000))] \<noteq> []" by simp
  have k2: "last [?order, createTaskOptions (JNum (Num 3)) (JNum (Num 10000))] = JObj ?ps"
    by (simp add: createTaskOptions_def)
  have g: "truthy (lookup ?ps ''_isTaskOptions'')"
    "lookup ?ps ''maxRetries'' = JNum (Num 3)" "lookup ?ps ''retryDelay'' = JNum (Num 10000)"
    by (simp_all add: lookup_def)
  obtain q'' u where b:
    "addTask 1 ''a'' 1 ''job'' [?order, createTaskOptions (JNum (Num 3)) (JNum (Num 10000))]
       TaskQueue_new = Inr q''"
    "args u = [?order]" "maxRetries u = JNum (Num 3)" "retryDelay u = JNum (Num 10000)"
    "running q'' = running TaskQueue_new @ [u\<lparr>calls := 1\<rparr>]"
    using g idle trailing_object_options [OF k1 k2, of 1 "''a''" 1 "''job''" TaskQueue_new]
    by auto
  have r2: "map (\<lambda>t. (args t, maxRetries t, retryDelay t, calls t))
     (running (run [Submit 1 ''a'' 1 ''job''
                      [?order, createTaskOptions (JNum (Num 3)) (JNum (Num 10000))]]
                 TaskQueue_new)) =
     [([?order], JNum (Num 3), JNum (Num 10000), 1)]"
    using b by (simp add: run_def TaskQueue_new_def)
  let ?q3 = "run [Submit 1 ''a'' 1 ''job'' [JStr ''x'']] TaskQueue_new"
  have busy: "processing ?q3" "queue ?q3 = []" by (simp_all add: queue_eval)
  obtain q3 w where c: "addTask 4 ''d'' 4 ''job'' [?order] ?q3 = Inr q3"
    "args w = [?order]" "maxRetries w = JNum (Num 3)" "retryDelay w = JNum (Num 5000)"
    "calls w = 0" "queue q3 = queue ?q3 @ [w]"
    using f busy(1) trailing_object_options [OF h1 h2, of 4 "''d''" 4 "''job''" ?q3]
    by auto
  have "run [Submit 1 ''a'' 1 ''job'' [JStr ''x''], Submit 4 ''d'' 4 ''job'' [?order]]
          TaskQueue_new = step (Submit 4 ''d'' 4 ''job'' [?order]) ?q3"
    by (simp add: run_def)
  then have r3: "map (\<lambda>t. (args t, maxRetries t, retryDelay t, calls t))
     (queue (run [Submit 1 ''a'' 1 ''job'' [JStr ''x''], Submit 4 ''d'' 4 ''job'' [?order]]
               TaskQueue_new)) =
     [([?order], JNum (Num 3), JNum (Num 5000), 0)]"
    using c busy(2) by simp
  show ?thesis using h1 h2 idle r1 r2 busy(1) r3 by blast
qed

section \<open>Properties of the attempt logger\<close>

lemma take_append_take: "take n (xs @ take n ys) = take n (xs @ ys)"
  by (simp add: min_def)

lemma remember_fields:
  "memoryLogs (remember e L) = take (maxMemoryLogs L) (e # memoryLogs L)"
  "maxMemoryLogs (remember e L) = maxMemoryLogs L"
  "initialized (remember e L) = initialized L"
  "logFile (remember e L) = logFile L"
  by (simp_all add: remember_def Let_def)

lemma memory_after_log:
  "memoryLogs (snd (logEmailAttempt env d L)) =
     take (maxMemoryLogs L) (logEntry_of env d # memoryLogs L)"
  by (simp add: logEmailAttempt_def Let_def remember_fields)

lemma logEmailAttempt_fields:
  "maxMemoryLogs (snd (logEmailAttempt env d L)) = maxMemoryLogs L"
  "initialized (snd (logEmailAttempt env d L)) = initialized L"
  "logFile (snd (logEmailAttempt env d L)) =
     (if initialized L then write_file env (logEntry_of env d) (logFile L) else logFile L)"
  "fst (logEmailAttempt env d L) = logEntry_of env d"
  by (simp_all add: logEmailAttempt_def Let_def remember_fields)

text \<open>Whatever a call has read, what it writes holds at most 500 entries.\<close>

lemma after_read_bounded: "after_read env e f = Some content \<Longrightarrow> stored content \<le> 500"
  by (cases f) (auto simp: after_read_def Let_def split: if_splits)

subsection \<open>The in-memory list under any interleaving\<close>

lemma memory_step:
  "memoryLogs (logger (logger_step ev S)) =
     (case ev of
        Call env d \<Rightarrow> take (maxMemoryLogs (logger S)) (logEntry_of env d # memoryLogs (logger S))
      | _ \<Rightarrow> memoryLogs (logger S))"
  "maxMemoryLogs (logger (logger_step ev S)) = maxMemoryLogs (logger S)"
proof -
  have r: "logger (read_done k S) = logger S" for k
    by (simp add: read_done_def Let_def split: prod.splits option.splits)
  have w: "memoryLogs (logger (write_done k S)) = memoryLogs (logger S) \<and>
           maxMemoryLogs (logger (write_done k S)) = maxMemoryLogs (logger S)" for k
    by (simp add: write_done_def Let_def split: prod.splits)
  show "memoryLogs (logger (logger_step ev S)) =
     (case ev of
        Call env d \<Rightarrow> take (maxMemoryLogs (logger S)) (logEntry_of env d # memoryLogs (logger S))
      | _ \<Rightarrow> memoryLogs (logger S))"
    by (cases ev)
       (simp_all add: init_access_def init_write_def call_log_def Let_def remember_fields r w)
  show "maxMemoryLogs (logger (logger_step ev S)) = maxMemoryLogs (logger S)"
    by (cases ev)
       (simp_all add: init_access_def init_write_def call_log_def Let_def remember_fields r w)
qed

lemma logged_step:
  "logged (ev # evs) = (case ev of Call env d \<Rightarrow> [logEntry_of env d] | _ \<Rightarrow> []) @ logged evs"
  by (cases ev) simp_all

lemma memory_run:
  "memoryLogs (logger (logger_run evs S)) =
     take (maxMemoryLogs (logger S)) (rev (logged evs) @ memoryLogs (logger S)) \<and>
   maxMemoryLogs (logger (logger_run evs S)) = maxMemoryLogs (logger S)"
  if "length (memoryLogs (logger S)) \<le> maxMemoryLogs (logger S)"
  using that
proof (induction evs arbitrary: S)
  case Nil
  then show ?case by (simp add: logger_run_def)
next
  case (Cons ev evs)
  let ?S1 = "logger_step ev S"
  let ?n = "maxMemoryLogs (logger S)"
  let ?mem = "memoryLogs (logger S)"
  have unfold: "logger_run (ev # evs) S = logger_run evs ?S1"
    by (simp add: logger_run_def)
  have n1: "maxMemoryLogs (logger ?S1) = ?n" by (rule memory_step)
  have len: "length (memoryLogs (logger ?S1)) \<le> maxMemoryLogs (logger ?S1)"
    using Cons.prems unfolding n1 memory_step by (cases ev) simp_all
  have ih: "memoryLogs (logger (logger_run evs ?S1)) =
          take ?n (rev (logged evs) @ memoryLogs (logger ?S1))"
    and m: "maxMemoryLogs (logger (logger_run evs ?S1)) = ?n"
    using Cons.IH [OF len] unfolding n1 by blast+
  have "take ?n (rev (logged evs) @ memoryLogs (logger ?S1)) =
        take ?n (rev (logged (ev # evs)) @ ?mem)"
  proof (cases "\<exists>env d. ev = Call env d")
    case True
    then obtain env d where c: "ev = Call env d" by blast
    have "memoryLogs (logger ?S1) = take ?n (logEntry_of env d # ?mem)"
      unfolding memory_step c by simp
    then have "take ?n (rev (logged evs) @ memoryLogs (logger ?S1)) =
        take ?n (rev (logged evs) @ logEntry_of env d # ?mem)"
      by (simp only: take_append_take)
    moreover have "rev (logged (ev # evs)) @ ?mem = rev (logged evs) @ logEntry_of env d # ?mem"
      unfolding c by simp
    ultimately show ?thesis by (simp only:)
  next
    case False
    then have "memoryLogs (logger ?S1) = ?mem" "logged (ev # evs) = logged evs"
      unfolding memory_step by (cases ev; simp)+
    then show ?thesis by (simp only:)
  qed
  then show ?case using ih m unfold by (simp only:)
qed

lemma logged_replicate: "logged (replicate n (Call env d)) = replicate n (logEntry_of env d)"
  by (induction n) simp_all

subsection \<open>The file under any interleaving\<close>

lemma capped_start: "stored f \<le> 500 \<Longrightarrow> capped (logger_start f)"
  by (simp add: capped_def logger_start_def EmailLogger_new_def)

lemma capped_read_done: "capped S \<Longrightarrow> capped (read_done k S)"
proof -
  assume c: "capped S"
  show ?thesis
  proof (cases "k < length (reading S)")
    case False
    then show ?thesis using c by (simp add: read_done_def)
  next
    case True
    obtain env e where p: "reading S ! k = (env, e)" by (cases "reading S ! k")
    show ?thesis
    proof (cases "after_read env e (logFile (logger S))")
      case None
      then show ?thesis using c True p by (simp add: read_done_def capped_def)
    next
      case (Some content)
      then have "stored content \<le> 500" by (rule after_read_bounded)
      then show ?thesis using c True p Some by (simp add: read_done_def capped_def)
    qed
  qed
qed

lemma capped_write_done: "capped S \<Longrightarrow> capped (write_done k S)"
proof -
  assume c: "capped S"
  show ?thesis
  proof (cases "k < length (writing S)")
    case False
    then show ?thesis using c by (simp add: write_done_def)
  next
    case True
    obtain env content where p: "writing S ! k = (env, content)" by (cases "writing S ! k")
    have "(env, content) \<in> set (writing S)" using True p by (metis nth_mem)
    then have b: "stored content \<le> 500" using c by (auto simp: capped_def list_all_iff)
    have rest: "list_all (\<lambda>(env, content). stored content \<le> 500)
                  (take k (writing S) @ drop (Suc k) (writing S))"
      using c by (auto simp: capped_def list_all_iff dest: in_set_takeD in_set_dropD)
    show ?thesis using c True p b rest
      by (simp add: write_done_def capped_def after_write_def)
  qed
qed

lemma capped_step: "capped S \<Longrightarrow> capped (logger_step ev S)"
proof (cases ev)
  case (InitAccess ok)
  assume "capped S"
  then show ?thesis using InitAccess by (simp add: init_access_def capped_def)
next
  case (InitWrite ok)
  assume "capped S"
  then show ?thesis using InitWrite by (simp add: init_write_def capped_def)
next
  case (Call env d)
  assume "capped S"
  then show ?thesis using Call by (simp add: call_log_def Let_def capped_def remember_fields)
next
  case (ReadDone k)
  assume "capped S"
  then show ?thesis using ReadDone by (simp add: capped_read_done)
next
  case (WriteDone k)
  assume "capped S"
  then show ?thesis using WriteDone by (simp add: capped_write_done)
qed

lemma capped_run: "capped S \<Longrightarrow> capped (logger_run evs S)"
  unfolding logger_run_def by (induction evs arbitrary: S) (simp_all add: capped_step)

text \<open>
  A call that no other call overlaps: its three steps in a row are \<open>logEmailAttempt\<close>
  run from its call to its end.
\<close>

lemma call_alone:
  assumes "reading S = []" "writing S = []"
  shows "logger (logger_run [Call env d, ReadDone 0, WriteDone 0] S) =
           snd (logEmailAttempt env d (logger S))"
proof (cases "initialized (logger S)")
  case False
  then show ?thesis using assms
    by (simp add: logger_run_def call_log_def read_done_def write_done_def Let_def
        logEmailAttempt_def remember_fields)
next
  case True
  show ?thesis
  proof (cases "after_read env (logEntry_of env d) (logFile (logger S))")
    case None
    then show ?thesis using assms True
      by (simp add: logger_run_def call_log_def read_done_def write_done_def Let_def
          logEmailAttempt_def remember_fields write_file_def)
  next
    case (Some content)
    then show ?thesis using assms True
      by (simp add: logger_run_def call_log_def read_done_def write_done_def Let_def
          logEmailAttempt_def remember_fields write_file_def)
  qed
qed

lemmas logger_eval =
  logger_run_def logger_start_def EmailLogger_new_def init_access_def init_write_def
  call_log_def read_done_def write_done_def remember_def after_read_def after_write_def
  logEntry_of_def Let_def

text \<open>
  Claim C6, as the code has it. After any sequence of calls of the logger, with the
  calls overlapping in any way, the in-memory log is the 100 most recent entries,
  most recent first, so it never holds more than 100. The file, when it holds at most
  500 entries to begin with (a file the logger created holds none), holds at most 500
  at every moment, whatever reads and writes fail. A call writes its entry in front of
  the entries it has read and keeps the first 500; so a call that no other call
  overlaps leaves the file with its entry in front and the oldest entries gone first.
\<close>

theorem log_capacities:
  "memoryLogs (logger (logger_run evs (logger_start f))) = take 100 (rev (logged evs)) \<and>
   length (memoryLogs (logger (logger_run evs (logger_start f)))) \<le> 100 \<and>
   (stored f \<le> 500 \<longrightarrow> stored (logFile (logger (logger_run evs (logger_start f)))) \<le> 500) \<and>
   (read_ok env \<longrightarrow>
      after_read env e (Entries logs) = Some (Entries (take 500 (e # logs)))) \<and>
   (reading S = [] \<and> writing S = [] \<and> initialized (logger S) \<and> read_ok env \<and> write_ok env \<and>
    logFile (logger S) = Entries logs \<longrightarrow>
      logFile (logger (logger_run [Call env d, ReadDone 0, WriteDone 0] S)) =
        Entries (take 500 (logEntry_of env d # logs)))"
proof -
  have m: "memoryLogs (logger (logger_run evs (logger_start f))) = take 100 (rev (logged evs))"
    using memory_run [of "logger_start f" evs]
    by (simp add: logger_start_def EmailLogger_new_def)
  have s: "stored f \<le> 500 \<Longrightarrow> stored (logFile (logger (logger_run evs (logger_start f)))) \<le> 500"
    using capped_run [OF capped_start, of f evs] by (simp add: capped_def)
  have r: "read_ok env \<longrightarrow>
      after_read env e (Entries logs) = Some (Entries (take 500 (e # logs)))"
    by (simp add: after_read_def Let_def)
  have a: "reading S = [] \<and> writing S = [] \<and> initialized (logger S) \<and> read_ok env \<and>
      write_ok env \<and> logFile (logger S) = Entries logs \<longrightarrow>
      logFile (logger (logger_run [Call env d, ReadDone 0, WriteDone 0] S)) =
        Entries (take 500 (logEntry_of env d # logs))"
    by (auto simp: call_alone logEmailAttempt_fields write_file_def after_read_def
        after_write_def Let_def)
  show ?thesis using m s r a by simp
qed

text \<open>
  After 150 attempts the in-memory log of a new logger holds 100 entries. A logger
  whose file holds 500 entries logs one more: the file holds the new entry in front of
  the 499 most recent of the old ones, and the oldest entry is gone.
\<close>

theorem log_capacities_witness:
  "length (memoryLogs (logger (logger_run
      (replicate 150 (Call \<lparr>le_now = 5, le_rnd = ''xy'', le_stamp = 6, read_ok = True, write_ok = True\<rparr>
         \<lparr>ed_type = None, ed_to = ''a@b.c'', ed_subject = ''new'', ed_orderId = None,
          ed_success = True, ed_messageId = Some ''m1'', ed_error = None,
          ed_retryCount = None\<rparr>))
      (logger_start Missing)))) = 100 \<and>
   stored (Entries (replicate 499
      (logEntry_of
         \<lparr>le_now = 1, le_rnd = ''ab'', le_stamp = 2, read_ok = True, write_ok = True\<rparr>
         \<lparr>ed_type = None, ed_to = ''a@b.c'', ed_subject = ''old'', ed_orderId = None,
          ed_success = True, ed_messageId = Some ''m0'', ed_error = None,
          ed_retryCount = None\<rparr>) @
      [logEntry_of
         \<lparr>le_now = 0, le_rnd = ''aa'', le_stamp = 1, read_ok = True, write_ok = True\<rparr>
         \<lparr>ed_type = None, ed_to = ''a@b.c'', ed_subject = ''oldest'', ed_orderId = None,
          ed_success = True, ed_messageId = Some ''m0'', ed_error = None,
          ed_retryCount = None\<rparr>])) \<le> 500 \<and>
   map log_subject (entries_of (Entries (replicate 499
      (logEntry_of
         \<lparr>le_now = 1, le_rnd = ''ab'', le_stamp = 2, read_ok = True, write_ok = True\<rparr>
         \<lparr>ed_type = None, ed_to = ''a@b.c'', ed_subject = ''old'', ed_orderId = None,
          ed_success = True, ed_messageId = Some ''m0'', ed_error = None,
          ed_retryCount = None\<rparr>) @
      [logEntry_of
         \<lparr>le_now = 0, le_rnd = ''aa'', le_stamp = 1, read_ok = True, write_ok = True\<rparr>
         \<lparr>ed_type = None, ed_to = ''a@b.c'', ed_subject = ''oldest'', ed_orderId = None,
          ed_success = True, ed_messageId = Some ''m0'', ed_error = None,
          ed_retryCount = None\<rparr>]))) = replicate 499 ''old'' @ [''oldest''] \<and>
   map log_subject (entries_of (logFile (logger (logger_run
      [InitAccess True,
       Call \<lparr>le_now = 5, le_rnd = ''xy'', le_stamp = 6, read_ok = True, write_ok = True\<rparr>
         \<lparr>ed_type = None, ed_to = ''a@b.c'', ed_subject = ''new'', ed_orderId = None,
          ed_success = True, ed_messageId = Some ''m1'', ed_error = None,
          ed_retryCount = None\<rparr>,
       ReadDone 0, WriteDone 0]
      (logger_start (Entries (replicate 499
      (logEntry_of
         \<lparr>le_now = 1, le_rnd = ''ab'', le_stamp = 2, read_ok = True, write_ok = True\<rparr>
         \<lparr>ed_type = None, ed_to = ''a@b.c'', ed_subject = ''old'', ed_orderId = None,
          ed_success = True, ed_messageId = Some ''m0'', ed_error = None,
          ed_retryCount = None\<rparr>) @
      [logEntry_of
         \<lparr>le_now = 0, le_rnd = ''aa'', le_stamp = 1, read_ok = True, write_ok = True\<rparr>
         \<lparr>ed_type = None, ed_to = ''a@b.c'', ed_subject = ''oldest'', ed_orderId = None,
          ed_success = True, ed_messageId = Some ''m0'', ed_error = None,
          ed_retryCount = None\<rparr>]))))))) =
     ''new'' # replicate 499 ''old'' \<and>
   stored (logFile (logger (logger_run
      [InitAccess True,
       Call \<lparr>le_now = 5, le_rnd = ''xy'', le_stamp = 6, read_ok = True, write_ok = True\<rparr>
         \<lparr>ed_type = None, ed_to = ''a@b.c'', ed_subject = ''new'', ed_orderId = None,
          ed_success = True, ed_messageId = Some ''m1'', ed_error = None,
          ed_retryCount = None\<rparr>,
       ReadDone 0, WriteDone 0]
      (logger_start (Entries (replicate 499
      (logEntry_of
         \<lparr>le_now = 1, le_rnd = ''ab'', le_stamp = 2, read_ok = True, write_ok = True\<rparr>
         \<lparr>ed_type = None, ed_to = ''a@b.c'', ed_subject = ''old'', ed_orderId = None,
          ed_success = True, ed_messageId = Some ''m0'', ed_error = None,
          ed_retryCount = None\<rparr>) @
      [logEntry_of
         \<lparr>le_now = 0, le_rnd = ''aa'', le_stamp = 1, read_ok = True, write_ok = True\<rparr>
         \<lparr>ed_type = None, ed_to = ''a@b.c'', ed_subject = ''oldest'', ed_orderId = None,
          ed_success = True, ed_messageId = Some ''m0'', ed_error = None,
          ed_retryCount = None\<rparr>])))))) \<le> 500"
proof -
  let ?env = "\<lparr>le_now = 5, le_rnd = ''xy'', le_stamp = 6, read_ok = True, write_ok = True\<rparr>"
  let ?d = "\<lparr>ed_type = None, ed_to = ''a@b.c'', ed_subject = ''new'', ed_orderId = None,
          ed_success = True, ed_messageId = Some ''m1'', ed_error = None,
          ed_retryCount = None\<rparr>"
  let ?old = "logEntry_of
         \<lparr>le_now = 1, le_rnd = ''ab'', le_stamp = 2, read_ok = True, write_ok = True\<rparr>
         \<lparr>ed_type = None, ed_to = ''a@b.c'', ed_subject = ''old'', ed_orderId = None,
          ed_success = True, ed_messageId = Some ''m0'', ed_error = None,
          ed_retryCount = None\<rparr>"
  let ?oldest = "logEntry_of
         \<lparr>le_now = 0, le_rnd = ''aa'', le_stamp = 1, read_ok = True, write_ok = True\<rparr>
         \<lparr>ed_type = None, ed_to = ''a@b.c'', ed_subject = ''oldest'', ed_orderId = None,
          ed_success = True, ed_messageId = Some ''m0'', ed_error = None,
          ed_retryCount = None\<rparr>"
  let ?logs = "replicate 499 ?old @ [?oldest]"
  let ?f = "Entries ?logs"
  let ?S = "logger_run [InitAccess True] (logger_start ?f)"
  let ?evs = "[InitAccess True, Call ?env ?d, ReadDone 0, WriteDone 0]"
  have h0: "stored ?f \<le> 500" by simp
  have h1: "map log_subject (entries_of ?f) = replicate 499 ''old'' @ [''oldest'']"
    by (simp add: logEntry_of_def)
  have hS: "reading ?S = [] \<and> writing ?S = [] \<and> initialized (logger ?S) \<and> read_ok ?env \<and>
      write_ok ?env \<and> logFile (logger ?S) = Entries ?logs"
    by (simp add: logger_run_def logger_start_def EmailLogger_new_def init_access_def)
  have split: "logger_run ?evs (logger_start ?f) =
      logger_run [Call ?env ?d, ReadDone 0, WriteDone 0] ?S"
    by (simp add: logger_run_def)
  note t1 = log_capacities [of "replicate 150 (Call ?env ?d)" Missing ?env ?old "[]" ?S ?d]
  note t2 = log_capacities [of ?evs ?f ?env ?old ?logs ?S ?d]
  have a: "length (memoryLogs (logger (logger_run (replicate 150 (Call ?env ?d))
      (logger_start Missing)))) = 100"
    using t1 [THEN conjunct1] by (simp add: logged_replicate)
  have "logFile (logger (logger_run ?evs (logger_start ?f))) =
      Entries (take 500 (logEntry_of ?env ?d # ?logs))"
    using t2 hS unfolding split by blast
  then have b: "map log_subject (entries_of (logFile (logger (logger_run ?evs (logger_start ?f))))) =
      ''new'' # replicate 499 ''old''"
    by (simp add: logEntry_of_def)
  have c: "stored (logFile (logger (logger_run ?evs (logger_start ?f)))) \<le> 500"
    using t2 h0 by blast
  show ?thesis using a h0 h1 b c by blast
qed

text \<open>
  Claim C6 as stated fails for the file when calls overlap. The logger creates the
  file and logs a first attempt. Two more attempts are logged by jobs running at the
  same time: both calls read the file before either has written. The second call to
  write replaces what the first one wrote: the file holds the third and the first
  entry, the second is gone though it is more recent than the first and the file is
  far from full. The in-memory log holds all three.
\<close>

theorem overlapping_calls_lose_entry_counterexample:
  "map log_subject (entries_of (logFile (logger (logger_run
      [InitAccess False, InitWrite True,
       Call \<lparr>le_now = 1, le_rnd = ''aa'', le_stamp = 1, read_ok = True, write_ok = True\<rparr>
         \<lparr>ed_type = None, ed_to = ''a@b.c'', ed_subject = ''first'', ed_orderId = None,
          ed_success = True, ed_messageId = Some ''m1'', ed_error = None,
          ed_retryCount = None\<rparr>,
       ReadDone 0, WriteDone 0,
       Call \<lparr>le_now = 2, le_rnd = ''bb'', le_stamp = 2, read_ok = True, write_ok = True\<rparr>
         \<lparr>ed_type = None, ed_to = ''a@b.c'', ed_subject = ''second'', ed_orderId = None,
          ed_success = True, ed_messageId = Some ''m2'', ed_error = None,
          ed_retryCount = None\<rparr>,
       Call \<lparr>le_now = 3, le_rnd = ''cc'', le_stamp = 3, read_ok = True, write_ok = True\<rparr>
         \<lparr>ed_type = None, ed_to = ''a@b.c'', ed_subject = ''third'', ed_orderId = None,
          ed_success = True, ed_messageId = Some ''m3'', ed_error = None,
          ed_retryCount = None\<rparr>,
       ReadDone 0, ReadDone 0, WriteDone 0, WriteDone 0]
      (logger_start Missing))))) = [''third'', ''first''] \<and>
   map log_subject (memoryLogs (logger (logger_run
      [InitAccess False, InitWrite True,
       Call \<lparr>le_now = 1, le_rnd = ''aa'', le_stamp = 1, read_ok = True, write_ok = True\<rparr>
         \<lparr>ed_type = None, ed_to = ''a@b.c'', ed_subject = ''first'', ed_orderId = None,
          ed_success = True, ed_messageId = Some ''m1'', ed_error = None,
          ed_retryCount = None\<rparr>,
       ReadDone 0, WriteDone 0,
       Call \<lparr>le_now = 2, le_rnd = ''bb'', le_stamp = 2, read_ok = True, write_ok = True\<rparr>
         \<lparr>ed_type = None, ed_to = ''a@b.c'', ed_subject = ''second'', ed_orderId = None,
          ed_success = True, ed_messageId = Some ''m2'', ed_error = None,
          ed_retryCount = None\<rparr>,
       Call \<lparr>le_now = 3, le_rnd = ''cc'', le_stamp = 3, read_ok = True, write_ok = True\<rparr>
         \<lparr>ed_type = None, ed_to = ''a@b.c'', ed_subject = ''third'', ed_orderId = None,
          ed_success = True, ed_messageId = Some ''m3'', ed_error = None,
          ed_retryCount = None\<rparr>,
       ReadDone 0, ReadDone 0, WriteDone 0, WriteDone 0]
      (logger_start Missing)))) = [''third'', ''second'', ''first'']"
  by (simp add: logger_eval)

text \<open>
  Claim C8. \<open>getStats\<close> leaves the logger as it is, so a second call with no
  \<open>logEmailAttempt\<close> in between returns what the first returned; two loggers with the
  same in-memory list give the same statistics, whatever their file; and the value has
  the five fields, with \<open>total\<close> the length of the list and \<open>failed\<close> the rest of
  \<open>total\<close> after the successes.
\<close>

theorem stats_idempotent:
  "snd (getStats toFixed L) = L \<and>
   fst (getStats toFixed (snd (getStats toFixed L))) = fst (getStats toFixed L) \<and>
   (memoryLogs L' = memoryLogs L \<longrightarrow> fst (getStats toFixed L') = fst (getStats toFixed L)) \<and>
   total (fst (getStats toFixed L)) = length (memoryLogs L) \<and>
   success_count (fst (getStats toFixed L)) + failed (fst (getStats toFixed L)) =
     total (fst (getStats toFixed L))"
  by (simp add: getStats_def Let_def)

text \<open>
  Two attempts are logged, a success and then a failure; the statistics are the same
  whether or not the file has been set up.
\<close>

theorem stats_idempotent_witness:
  "memoryLogs
     ((logger (logger_run
        [Call \<lparr>le_now = 5, le_rnd = ''xy'', le_stamp = 6, read_ok = True, write_ok = True\<rparr>
           \<lparr>ed_type = None, ed_to = ''a@b.c'', ed_subject = ''s'', ed_orderId = None,
            ed_success = True, ed_messageId = Some ''m1'', ed_error = None,
            ed_retryCount = None\<rparr>,
         Call \<lparr>le_now = 7, le_rnd = ''uv'', le_stamp = 8, read_ok = True, write_ok = True\<rparr>
           \<lparr>ed_type = None, ed_to = ''a@b.c'', ed_subject = ''s'', ed_orderId = None,
            ed_success = False, ed_messageId = None, ed_error = Some ''refused'',
            ed_retryCount = None\<rparr>]
        (logger_start Missing)))\<lparr>initialized := True, logFile := Entries []\<rparr>) =
   memoryLogs
     (logger (logger_run
        [Call \<lparr>le_now = 5, le_rnd = ''xy'', le_stamp = 6, read_ok = True, write_ok = True\<rparr>
           \<lparr>ed_type = None, ed_to = ''a@b.c'', ed_subject = ''s'', ed_orderId = None,
            ed_success = True, ed_messageId = Some ''m1'', ed_error = None,
            ed_retryCount = None\<rparr>,
         Call \<lparr>le_now = 7, le_rnd = ''uv'', le_stamp = 8, read_ok = True, write_ok = True\<rparr>
           \<lparr>ed_type = None, ed_to = ''a@b.c'', ed_subject = ''s'', ed_orderId = None,
            ed_success = False, ed_messageId = None, ed_error = Some ''refused'',
            ed_retryCount = None\<rparr>]
        (logger_start Missing))) \<and>
   fst (getStats (\<lambda>s t. ''50.00'')
     ((logger (logger_run
        [Call \<lparr>le_now = 5, le_rnd = ''xy'', le_stamp = 6, read_ok = True, write_ok = True\<rparr>
           \<lparr>ed_type = None, ed_to = ''a@b.c'', ed_subject = ''s'', ed_orderId = None,
            ed_success = True, ed_messageId = Some ''m1'', ed_error = None,
            ed_retryCount = None\<rparr>,
         Call \<lparr>le_now = 7, le_rnd = ''uv'', le_stamp = 8, read_ok = True, write_ok = True\<rparr>
           \<lparr>ed_type = None, ed_to = ''a@b.c'', ed_subject = ''s'', ed_orderId = None,
            ed_success = False, ed_messageId = None, ed_error = Some ''refused'',
            ed_retryCount = None\<rparr>]
        (logger_start Missing)))\<lparr>initialized := True, logFile := Entries []\<rparr>)) =
     \<lparr>total = 2, success_count = 1, failed = 1, successRate = ''50.00%'',
      lastAttempt = Some 8\<rparr>"
proof -
  let ?L = "logger (logger_run
        [Call \<lparr>le_now = 5, le_rnd = ''xy'', le_stamp = 6, read_ok = True, write_ok = True\<rparr>
           \<lparr>ed_type = None, ed_to = ''a@b.c'', ed_subject = ''s'', ed_orderId = None,
            ed_success = True, ed_messageId = Some ''m1'', ed_error = None,
            ed_retryCount = None\<rparr>,
         Call \<lparr>le_now = 7, le_rnd = ''uv'', le_stamp = 8, read_ok = True, write_ok = True\<rparr>
           \<lparr>ed_type = None, ed_to = ''a@b.c'', ed_subject = ''s'', ed_orderId = None,
            ed_success = False, ed_messageId = None, ed_error = Some ''refused'',
            ed_retryCount = None\<rparr>]
        (logger_start Missing))"
  let ?L' = "?L\<lparr>initialized := True, logFile := Entries []\<rparr>"
  have h: "memoryLogs ?L' = memoryLogs ?L" by simp
  have v: "fst (getStats (\<lambda>s t. ''50.00'') ?L) =
     \<lparr>total = 2, success_count = 1, failed = 1, successRate = ''50.00%'',
      lastAttempt = Some 8\<rparr>"
    by (simp add: getStats_def logger_eval)
  have "fst (getStats (\<lambda>s t. ''50.00'') ?L') = fst (getStats (\<lambda>s t. ''50.00'') ?L)"
    using h stats_idempotent [of "\<lambda>s t. ''50.00''" ?L ?L'] by blast
  then show ?thesis using h v by simp
qed

section \<open>Properties of the delivery tiers and the orchestrator\<close>

lemma NoopEmailService_new_inactive [simp]: "\<not> active NoopEmailService_new"
  by (simp add: NoopEmailService_new_def)

lemma activate_sets_flag: "active (noopEmailService (activate W))"
  by (simp add: activate_def)

lemma take_cons_take: "take n (x # take n ys) = take n (x # ys)"
  using take_append_take [of n "[x]" ys] by simp

lemma logEntry_of_fields:
  "status (logEntry_of env d) = (if ed_success d then ''success'' else ''failed'')"
  "log_messageId (logEntry_of env d) = or_null (ed_messageId d)"
  by (simp_all add: logEntry_of_def)

lemma log_attempt_fields:
  "maxMemoryLogs (emailLogger (log_attempt env d W)) = maxMemoryLogs (emailLogger W)"
  "attempts (log_attempt env d W) = attempts W"
  "noopEmailService (log_attempt env d W) = noopEmailService W"
  "emailFallback (log_attempt env d W) = emailFallback W"
  by (simp_all add: log_attempt_def logEmailAttempt_fields)

text \<open>One call of the logger puts one value in front of every column of the log.\<close>

lemma column_log_attempt:
  "map f (memoryLogs (emailLogger (log_attempt env d W))) =
     take (maxMemoryLogs (emailLogger W))
       (f (logEntry_of env d) # map f (memoryLogs (emailLogger W)))"
proof -
  have "map f (memoryLogs (emailLogger (log_attempt env d W))) =
          map f (take (maxMemoryLogs (emailLogger W)) (logEntry_of env d # memoryLogs (emailLogger W)))"
    by (simp add: log_attempt_def memory_after_log)
  also have "\<dots> = take (maxMemoryLogs (emailLogger W))
                     (map f (logEntry_of env d # memoryLogs (emailLogger W)))"
    by (simp only: take_map)
  finally show ?thesis by simp
qed

lemma noop_messageId_nonempty:
  "or_null (Some (noop_messageId now rnd)) = Some (noop_messageId now rnd)"
  by (simp add: or_null_def noop_messageId_def)

subsection \<open>The message id of the simulated tier\<close>

text \<open>
  The decimal rendering of a number reads back as that number, and it holds digits
  only; so two renderings are the same only for the same number.
\<close>

lemma digits_from_snoc:
  "digits_from b a (cs @ [c]) =
     (case digits_from b a cs of
        None \<Rightarrow> None
      | Some v \<Rightarrow> (case digit_of b c of None \<Rightarrow> None | Some d \<Rightarrow> Some (b * v + d)))"
  by (induction cs arbitrary: a) (simp_all split: option.splits)

lemma digit_of_char: "d < 10 \<Longrightarrow> digit_of 10 (char_of (48 + d)) = Some d"
  by (simp add: digit_of_def Let_def)

lemma digits_from_dec: "digits_from 10 0 (dec n) = Some n"
proof (induction n rule: dec.induct)
  case (1 n)
  show ?case
  proof (cases "n < 10")
    case True
    then show ?thesis by (simp add: dec.simps [of n] digit_of_char)
  next
    case False
    then have "digits_from 10 0 (dec (n div 10)) = Some (n div 10)" by (rule "1.IH")
    moreover have "digit_of 10 (char_of (48 + n mod 10)) = Some (n mod 10)"
      by (rule digit_of_char) simp
    ultimately show ?thesis using False
      by (simp add: dec.simps [of n] digits_from_snoc)
  qed
qed

lemma dec_inj:
  assumes "dec m = dec n"
  shows "m = n"
proof -
  have "Some m = digits_from 10 0 (dec m)" by (simp only: digits_from_dec)
  also have "\<dots> = digits_from 10 0 (dec n)" by (simp only: assms)
  also have "\<dots> = Some n" by (simp only: digits_from_dec)
  finally show ?thesis by simp
qed

lemma dec_digits: "c \<in> set (dec n) \<Longrightarrow> 48 \<le> (of_char c :: nat) \<and> (of_char c :: nat) \<le> 57"
proof (induction n rule: dec.induct)
  case (1 n)
  show ?case
  proof (cases "n < 10")
    case True
    then show ?thesis using "1.prems" by (simp add: dec.simps [of n])
  next
    case False
    have "n mod 10 < 10" by simp
    then have "48 \<le> (of_char (char_of (48 + n mod 10)) :: nat) \<and>
               (of_char (char_of (48 + n mod 10)) :: nat) \<le> 57"
      by simp
    then show ?thesis using False "1.prems" "1.IH"
      by (auto simp: dec.simps [of n])
  qed
qed

lemma dec_no_dash: "CHR ''-'' \<notin> set (dec n)"
  using dec_digits [of "CHR ''-''" n] by auto

lemma split_at_dash:
  assumes "CHR ''-'' \<notin> set xs" "CHR ''-'' \<notin> set ys"
    and "xs @ CHR ''-'' # r = ys @ CHR ''-'' # r'"
  shows "xs = ys \<and> r = r'"
proof -
  have x: "takeWhile (\<lambda>c. c \<noteq> CHR ''-'') (xs @ CHR ''-'' # r) = xs"
    using assms(1) by (induction xs) auto
  have y: "takeWhile (\<lambda>c. c \<noteq> CHR ''-'') (ys @ CHR ''-'' # r') = ys"
    using assms(2) by (induction ys) auto
  have "xs = ys" using x y assms(3) by simp
  then show ?thesis using assms(3) by simp
qed

text \<open>Two calls get the same message id only with the same clock reading and draw.\<close>

lemma noop_messageId_inj:
  assumes "noop_messageId now rnd = noop_messageId now' rnd'"
  shows "now = now' \<and> rnd = rnd'"
proof -
  have "dec now @ CHR ''-'' # (rnd @ ''@simulated.local'') =
        dec now' @ CHR ''-'' # (rnd' @ ''@simulated.local'')"
    using assms by (simp add: noop_messageId_def)
  then have "dec now = dec now' \<and> rnd @ ''@simulated.local'' = rnd' @ ''@simulated.local''"
    by (rule split_at_dash [OF dec_no_dash dec_no_dash])
  then show ?thesis by (auto dest: dec_inj)
qed

text \<open>
  Claim C10. Every call of the simulated tier's \<open>sendMail\<close>, whatever the \<open>active\<close>
  flag says, returns a success marked as simulated. Its message id is generated in the
  call, from the clock reading and the random draw of that call, and two calls get the
  same id only when both the reading and the draw are the same. The call puts one
  entry in front of the log, a success with that message id. No call returns a
  failure, and the call does not touch the flag.
\<close>

theorem noop_sendMail_always_succeeds:
  "fst (noop_sendMail now rnd env mo md W) =
     \<lparr>success = True, messageId = Some (noop_messageId now rnd),
      error = None, usingFallback = False, simulated = True\<rparr> \<and>
   noop_messageId now rnd = ''noop-'' @ dec now @ ''-'' @ rnd @ ''@simulated.local'' \<and>
   (noop_messageId now rnd = noop_messageId now' rnd' \<longrightarrow> now = now' \<and> rnd = rnd') \<and>
   memoryLogs (emailLogger (snd (noop_sendMail now rnd env mo md W))) =
     take (maxMemoryLogs (emailLogger W))
       (logEntry_of env (logged_data mo md True (Some (noop_messageId now rnd)) (md_error md)) #
        memoryLogs (emailLogger W)) \<and>
   status (logEntry_of env
             (logged_data mo md True (Some (noop_messageId now rnd)) (md_error md))) =
     ''success'' \<and>
   log_messageId (logEntry_of env
             (logged_data mo md True (Some (noop_messageId now rnd)) (md_error md))) =
     Some (noop_messageId now rnd) \<and>
   attempts (snd (noop_sendMail now rnd env mo md W)) = attempts W @ [Simulated] \<and>
   noopEmailService (snd (noop_sendMail now rnd env mo md W)) = noopEmailService W"
proof -
  have r: "fst (noop_sendMail now rnd env mo md W) =
     \<lparr>success = True, messageId = Some (noop_messageId now rnd),
      error = None, usingFallback = False, simulated = True\<rparr>"
    by (simp add: noop_sendMail_def Let_def)
  have i: "noop_messageId now rnd = ''noop-'' @ dec now @ ''-'' @ rnd @ ''@simulated.local''"
    by (simp add: noop_messageId_def)
  have j: "noop_messageId now rnd = noop_messageId now' rnd' \<longrightarrow> now = now' \<and> rnd = rnd'"
    using noop_messageId_inj by blast
  have m: "memoryLogs (emailLogger (snd (noop_sendMail now rnd env mo md W))) =
     take (maxMemoryLogs (emailLogger W))
       (logEntry_of env (logged_data mo md True (Some (noop_messageId now rnd)) (md_error md)) #
        memoryLogs (emailLogger W))"
    by (simp add: noop_sendMail_def Let_def log_attempt_def memory_after_log)
  have s: "status (logEntry_of env
             (logged_data mo md True (Some (noop_messageId now rnd)) (md_error md))) =
     ''success''"
    by (simp add: logEntry_of_fields logged_data_def)
  have l: "log_messageId (logEntry_of env
             (logged_data mo md True (Some (noop_messageId now rnd)) (md_error md))) =
     Some (noop_messageId now rnd)"
    by (simp add: logEntry_of_fields logged_data_def noop_messageId_nonempty)
  have a: "attempts (snd (noop_sendMail now rnd env mo md W)) = attempts W @ [Simulated]"
    by (simp add: noop_sendMail_def Let_def log_attempt_fields)
  have n: "noopEmailService (snd (noop_sendMail now rnd env mo md W)) = noopEmailService W"
    by (simp add: noop_sendMail_def Let_def log_attempt_fields)
  show ?thesis using r i j m s l a n by blast
qed

text \<open>
  The simulated tier has not been activated; the call succeeds all the same, and a
  call one millisecond later gets another message id.
\<close>

theorem noop_sendMail_always_succeeds_witness:
  "\<not> active (noopEmailService
       \<lparr>emailLogger = EmailLogger_new Missing,
        emailFallback = EmailFallbackService_new,
        noopEmailService = NoopEmailService_new, attempts = []\<rparr>) \<and>
   fst (noop_sendMail 9 ''zz''
          \<lparr>le_now = 5, le_rnd = ''xy'', le_stamp = 6, read_ok = True, write_ok = True\<rparr>
          \<lparr>mo_from = ''shop'', mo_to = ''a@b.c'', mo_subject = ''s'', mo_html = ''h''\<rparr>
          \<lparr>md_type = None, md_orderId = None, md_retryCount = None, md_messageId = None,
           md_error = None\<rparr>
          \<lparr>emailLogger = EmailLogger_new Missing,
           emailFallback = EmailFallbackService_new,
           noopEmailService = NoopEmailService_new, attempts = []\<rparr>) =
     \<lparr>success = True, messageId = Some ''noop-9-zz@simulated.local'',
      error = None, usingFallback = False, simulated = True\<rparr> \<and>
   map (\<lambda>e. (status e, log_messageId e))
     (memoryLogs (emailLogger (snd (noop_sendMail 9 ''zz''
          \<lparr>le_now = 5, le_rnd = ''xy'', le_stamp = 6, read_ok = True, write_ok = True\<rparr>
          \<lparr>mo_from = ''shop'', mo_to = ''a@b.c'', mo_subject = ''s'', mo_html = ''h''\<rparr>
          \<lparr>md_type = None, md_orderId = None, md_retryCount = None, md_messageId = None,
           md_error = None\<rparr>
          \<lparr>emailLogger = EmailLogger_new Missing,
           emailFallback = EmailFallbackService_new,
           noopEmailService = NoopEmailService_new, attempts = []\<rparr>)))) =
     [(''success'', Some ''noop-9-zz@simulated.local'')] \<and>
   noop_messageId 9 ''zz'' = noop_messageId 9 ''zz'' \<and>
   noop_messageId 9 ''zz'' \<noteq> noop_messageId 10 ''zz''"
proof -
  let ?env = "\<lparr>le_now = 5, le_rnd = ''xy'', le_stamp = 6, read_ok = True, write_ok = True\<rparr>"
  let ?mo = "\<lparr>mo_from = ''shop'', mo_to = ''a@b.c'', mo_subject = ''s'', mo_html = ''h''\<rparr>"
  let ?md = "\<lparr>md_type = None, md_orderId = None, md_retryCount = None, md_messageId = None,
           md_error = None\<rparr>"
  let ?W = "\<lparr>emailLogger = EmailLogger_new Missing,
           emailFallback = EmailFallbackService_new,
           noopEmailService = NoopEmailService_new, attempts = []\<rparr>"
  note t = noop_sendMail_always_succeeds [of 9 "''zz''" ?env ?mo ?md ?W 10 "''zz''"]
  have d: "noop_messageId 9 ''zz'' = ''noop-9-zz@simulated.local''" by code_simp
  have a: "\<not> active (noopEmailService ?W)" by simp
  have b: "fst (noop_sendMail 9 ''zz'' ?env ?mo ?md ?W) =
     \<lparr>success = True, messageId = Some ''noop-9-zz@simulated.local'',
      error = None, usingFallback = False, simulated = True\<rparr>"
    using t [THEN conjunct1] by (simp only: d)
  have "memoryLogs (emailLogger (snd (noop_sendMail 9 ''zz'' ?env ?mo ?md ?W))) =
      [logEntry_of ?env (logged_data ?mo ?md True (Some (noop_messageId 9 ''zz'')) (md_error ?md))]"
    using t by (simp add: EmailLogger_new_def)
  moreover have "status (logEntry_of ?env
      (logged_data ?mo ?md True (Some (noop_messageId 9 ''zz'')) (md_error ?md))) = ''success''"
    and "log_messageId (logEntry_of ?env
      (logged_data ?mo ?md True (Some (noop_messageId 9 ''zz'')) (md_error ?md))) =
      Some (noop_messageId 9 ''zz'')"
    using t by blast+
  ultimately have c: "map (\<lambda>e. (status e, log_messageId e))
     (memoryLogs (emailLogger (snd (noop_sendMail 9 ''zz'' ?env ?mo ?md ?W)))) =
     [(''success'', Some ''noop-9-zz@simulated.local'')]"
    by (simp only: d list.map)
  have e: "noop_messageId 9 ''zz'' \<noteq> noop_messageId 10 ''zz''"
    using t by auto
  show ?thesis using a b c e by blast
qed

subsection \<open>One pass of the orchestrator\<close>

text \<open>The statuses a pass logs, most recent first, and the tiers it calls, in order.\<close>

lemma pass_primary_sent:
  assumes "primary_out env = Sent mid"
  shows "map status (memoryLogs (emailLogger (snd (customer_confirmation_job env ord W)))) =
           take (maxMemoryLogs (emailLogger W))
             (''success'' # map status (memoryLogs (emailLogger W)))"
    and "attempts (snd (customer_confirmation_job env ord W)) = attempts W @ [Primary]"
    and "fst (customer_confirmation_job env ord W) =
           \<lparr>success = True, messageId = Some mid, error = None,
            usingFallback = False, simulated = False\<rparr>"
  using assms
  by (simp_all add: customer_confirmation_job_def Let_def column_log_attempt
      log_attempt_fields logEntry_of_fields logged_data_def)

lemma pass_fallback_sent:
  assumes "primary_out env = SendError e1" "fallback_out env = Sent mid"
  shows "map status (memoryLogs (emailLogger (snd (customer_confirmation_job env ord W)))) =
           take (maxMemoryLogs (emailLogger W))
             (''success'' # map status (memoryLogs (emailLogger W)))"
    and "attempts (snd (customer_confirmation_job env ord W)) = attempts W @ [Primary, Fallback]"
    and "fst (customer_confirmation_job env ord W) =
           \<lparr>success = True, messageId = Some mid, error = None,
            usingFallback = True, simulated = False\<rparr>"
  using assms
  by (simp_all add: customer_confirmation_job_def fallback_sendMail_def Let_def
      column_log_attempt log_attempt_fields logEntry_of_fields logged_data_def)

lemma pass_simulated:
  assumes "primary_out env = SendError e1" "fallback_out env = SendError e2"
    and "active (noopEmailService W)"
  shows "map status (memoryLogs (emailLogger (snd (customer_confirmation_job env ord W)))) =
           take (maxMemoryLogs (emailLogger W))
             (''success'' # ''failed'' # map status (memoryLogs (emailLogger W)))"
    and "attempts (snd (customer_confirmation_job env ord W)) =
           attempts W @ [Primary, Fallback, Simulated]"
    and "fst (customer_confirmation_job env ord W) =
           \<lparr>success = True, messageId = Some (noop_messageId (noop_now env) (noop_rnd env)),
            error = None, usingFallback = False, simulated = True\<rparr>"
  using assms
  by (simp_all add: customer_confirmation_job_def fallback_sendMail_def noop_sendMail_def Let_def
      column_log_attempt log_attempt_fields logEntry_of_fields logged_data_def take_cons_take)

lemma pass_all_failed:
  assumes "primary_out env = SendError e1" "fallback_out env = SendError e2"
    and "\<not> active (noopEmailService W)"
  shows "map status (memoryLogs (emailLogger (snd (customer_confirmation_job env ord W)))) =
           take (maxMemoryLogs (emailLogger W))
             (''failed'' # ''failed'' # map status (memoryLogs (emailLogger W)))"
    and "attempts (snd (customer_confirmation_job env ord W)) = attempts W @ [Primary, Fallback]"
    and "fst (customer_confirmation_job env ord W) =
           \<lparr>success = False, messageId = None,
            error = Some ''Both primary and fallback email delivery failed'',
            usingFallback = False, simulated = False\<rparr>"
  using assms
  by (simp_all add: customer_confirmation_job_def fallback_sendMail_def Let_def
      column_log_attempt log_attempt_fields logEntry_of_fields logged_data_def take_cons_take
      str_or_def)

lemma column_fallback_sendMail:
  "map status (memoryLogs (emailLogger (snd (fallback_sendMail out env mo md W)))) =
     take (maxMemoryLogs (emailLogger W))
       ((case out of Sent mid \<Rightarrow> ''success'' | SendError msg \<Rightarrow> ''failed'') #
        map status (memoryLogs (emailLogger W)))"
  by (cases out)
     (simp_all add: fallback_sendMail_def Let_def column_log_attempt logEntry_of_fields
        logged_data_def)

text \<open>
  Claim C1, as the code has it. One pass of the customer confirmation job puts these
  entries in front of the log (most recent first) and calls these tiers:
  a success, when the primary send succeeds;
  a success, the fallback's, when the primary send fails and the fallback succeeds:
  two tiers were tried and one entry is logged, the failed primary attempt has no
  entry of its own;
  a success of the simulated tier over a failure of the fallback, when both sends fail
  and the simulated tier is active;
  the final failure over the failure of the fallback, when both fail and the simulated
  tier is not active.
  Every call of the fallback tier's \<open>sendMail\<close> logs one entry, whatever its outcome.
\<close>

theorem pass_log_entries:
  "map status (memoryLogs (emailLogger (snd (customer_confirmation_job env ord W)))) =
     take (maxMemoryLogs (emailLogger W))
       ((case primary_out env of
           Sent mid \<Rightarrow> [''success'']
         | SendError e1 \<Rightarrow>
             (case fallback_out env of
                Sent mid \<Rightarrow> [''success'']
              | SendError e2 \<Rightarrow>
                  if active (noopEmailService W) then [''success'', ''failed'']
                  else [''failed'', ''failed''])) @
        map status (memoryLogs (emailLogger W))) \<and>
   attempts (snd (customer_confirmation_job env ord W)) =
     attempts W @
       (case primary_out env of
          Sent mid \<Rightarrow> [Primary]
        | SendError e1 \<Rightarrow>
            (case fallback_out env of
               Sent mid \<Rightarrow> [Primary, Fallback]
             | SendError e2 \<Rightarrow>
                 if active (noopEmailService W) then [Primary, Fallback, Simulated]
                 else [Primary, Fallback])) \<and>
   map status (memoryLogs (emailLogger (snd (fallback_sendMail out lenv mo md W')))) =
     take (maxMemoryLogs (emailLogger W'))
       ((case out of Sent mid \<Rightarrow> ''success'' | SendError msg \<Rightarrow> ''failed'') #
        map status (memoryLogs (emailLogger W')))"
proof -
  have "map status (memoryLogs (emailLogger (snd (customer_confirmation_job env ord W)))) =
     take (maxMemoryLogs (emailLogger W))
       ((case primary_out env of
           Sent mid \<Rightarrow> [''success'']
         | SendError e1 \<Rightarrow>
             (case fallback_out env of
                Sent mid \<Rightarrow> [''success'']
              | SendError e2 \<Rightarrow>
                  if active (noopEmailService W) then [''success'', ''failed'']
                  else [''failed'', ''failed''])) @
        map status (memoryLogs (emailLogger W))) \<and>
   attempts (snd (customer_confirmation_job env ord W)) =
     attempts W @
       (case primary_out env of
          Sent mid \<Rightarrow> [Primary]
        | SendError e1 \<Rightarrow>
            (case fallback_out env of
               Sent mid \<Rightarrow> [Primary, Fallback]
             | SendError e2 \<Rightarrow>
                 if active (noopEmailService W) then [Primary, Fallback, Simulated]
                 else [Primary, Fallback]))"
  proof (cases "primary_out env")
    case (Sent mid)
    then show ?thesis using pass_primary_sent [OF Sent] by simp
  next
    case p: (SendError e1)
    show ?thesis
    proof (cases "fallback_out env")
      case (Sent mid)
      then show ?thesis using p pass_fallback_sent [OF p Sent] by simp
    next
      case f: (SendError e2)
      show ?thesis
      proof (cases "active (noopEmailService W)")
        case True
        then show ?thesis using p f pass_simulated [OF p f True] by simp
      next
        case False
        then show ?thesis using p f pass_all_failed [OF p f False] by simp
      qed
    qed
  qed
  then show ?thesis using column_fallback_sendMail [of out lenv mo md W'] by simp
qed

text \<open>Both sends fail and the simulated tier is not active: two failed entries.\<close>

theorem pass_log_entries_witness:
  "map status (memoryLogs (emailLogger (snd (customer_confirmation_job
      \<lparr>config_from = ''shop'', template = ''h'', primary_out = SendError ''timeout'',
       fallback_out = SendError ''refused'',
       log1 = \<lparr>le_now = 5, le_rnd = ''xy'', le_stamp = 6, read_ok = True, write_ok = True\<rparr>,
       log2 = \<lparr>le_now = 7, le_rnd = ''uv'', le_stamp = 8, read_ok = True, write_ok = True\<rparr>,
       noop_now = 9, noop_rnd = ''zz''\<rparr>
      \<lparr>customer_email = ''a@b.c'', orderId = ''A1''\<rparr>
      \<lparr>emailLogger = EmailLogger_new Missing,
       emailFallback = EmailFallbackService_new,
       noopEmailService = NoopEmailService_new, attempts = []\<rparr>)))) = [''failed'', ''failed''] \<and>
   attempts (snd (customer_confirmation_job
      \<lparr>config_from = ''shop'', template = ''h'', primary_out = SendError ''timeout'',
       fallback_out = SendError ''refused'',
       log1 = \<lparr>le_now = 5, le_rnd = ''xy'', le_stamp = 6, read_ok = True, write_ok = True\<rparr>,
       log2 = \<lparr>le_now = 7, le_rnd = ''uv'', le_stamp = 8, read_ok = True, write_ok = True\<rparr>,
       noop_now = 9, noop_rnd = ''zz''\<rparr>
      \<lparr>customer_email = ''a@b.c'', orderId = ''A1''\<rparr>
      \<lparr>emailLogger = EmailLogger_new Missing,
       emailFallback = EmailFallbackService_new,
       noopEmailService = NoopEmailService_new, attempts = []\<rparr>)) = [Primary, Fallback]"
proof -
  let ?env = "\<lparr>config_from = ''shop'', template = ''h'', primary_out = SendError ''timeout'',
       fallback_out = SendError ''refused'',
       log1 = \<lparr>le_now = 5, le_rnd = ''xy'', le_stamp = 6, read_ok = True, write_ok = True\<rparr>,
       log2 = \<lparr>le_now = 7, le_rnd = ''uv'', le_stamp = 8, read_ok = True, write_ok = True\<rparr>,
       noop_now = 9, noop_rnd = ''zz''\<rparr>"
  let ?ord = "\<lparr>customer_email = ''a@b.c'', orderId = ''A1''\<rparr>"
  let ?W = "\<lparr>emailLogger = EmailLogger_new Missing,
       emailFallback = EmailFallbackService_new,
       noopEmailService = NoopEmailService_new, attempts = []\<rparr>"
  note t = pass_log_entries [of ?env ?ord ?W "Sent ''m''" "log1 ?env"
      "\<lparr>mo_from = ''shop'', mo_to = ''a@b.c'', mo_subject = ''s'', mo_html = ''h''\<rparr>"
      "\<lparr>md_type = None, md_orderId = None, md_retryCount = None, md_messageId = None,
        md_error = None\<rparr>" ?W]
  have a: "map status (memoryLogs (emailLogger (snd (customer_confirmation_job ?env ?ord ?W)))) =
      [''failed'', ''failed'']"
    using t [THEN conjunct1] by (simp add: EmailLogger_new_def)
  have b: "attempts (snd (customer_confirmation_job ?env ?ord ?W)) = [Primary, Fallback]"
    using t [THEN conjunct2, THEN conjunct1] by simp
  show ?thesis using a b by blast
qed

text \<open>
  Claim C1 as stated fails: the primary send fails and the fallback send succeeds, two
  tiers were tried, and the log holds one entry, a success.
\<close>

theorem primary_failure_not_logged_counterexample:
  "attempts (snd (customer_confirmation_job
      \<lparr>config_from = ''shop'', template = ''h'', primary_out = SendError ''timeout'',
       fallback_out = Sent ''m2'',
       log1 = \<lparr>le_now = 5, le_rnd = ''xy'', le_stamp = 6, read_ok = True, write_ok = True\<rparr>,
       log2 = \<lparr>le_now = 7, le_rnd = ''uv'', le_stamp = 8, read_ok = True, write_ok = True\<rparr>,
       noop_now = 9, noop_rnd = ''zz''\<rparr>
      \<lparr>customer_email = ''a@b.c'', orderId = ''A1''\<rparr>
      \<lparr>emailLogger = EmailLogger_new Missing,
       emailFallback = EmailFallbackService_new,
       noopEmailService = NoopEmailService_new, attempts = []\<rparr>)) = [Primary, Fallback] \<and>
   map status (memoryLogs (emailLogger (snd (customer_confirmation_job
      \<lparr>config_from = ''shop'', template = ''h'', primary_out = SendError ''timeout'',
       fallback_out = Sent ''m2'',
       log1 = \<lparr>le_now = 5, le_rnd = ''xy'', le_stamp = 6, read_ok = True, write_ok = True\<rparr>,
       log2 = \<lparr>le_now = 7, le_rnd = ''uv'', le_stamp = 8, read_ok = True, write_ok = True\<rparr>,
       noop_now = 9, noop_rnd = ''zz''\<rparr>
      \<lparr>customer_email = ''a@b.c'', orderId = ''A1''\<rparr>
      \<lparr>emailLogger = EmailLogger_new Missing,
       emailFallback = EmailFallbackService_new,
       noopEmailService = NoopEmailService_new, attempts = []\<rparr>)))) = [''success''] \<and>
   length (memoryLogs (emailLogger (snd (customer_confirmation_job
      \<lparr>config_from = ''shop'', template = ''h'', primary_out = SendError ''timeout'',
       fallback_out = Sent ''m2'',
       log1 = \<lparr>le_now = 5, le_rnd = ''xy'', le_stamp = 6, read_ok = True, write_ok = True\<rparr>,
       log2 = \<lparr>le_now = 7, le_rnd = ''uv'', le_stamp = 8, read_ok = True, write_ok = True\<rparr>,
       noop_now = 9, noop_rnd = ''zz''\<rparr>
      \<lparr>customer_email = ''a@b.c'', orderId = ''A1''\<rparr>
      \<lparr>emailLogger = EmailLogger_new Missing,
       emailFallback = EmailFallbackService_new,
       noopEmailService = NoopEmailService_new, attempts = []\<rparr>)))) \<noteq> 2"
  by (simp add: customer_confirmation_job_def fallback_sendMail_def Let_def
      log_attempt_def logEmailAttempt_def remember_def logEntry_of_def logged_data_def
      EmailLogger_new_def)

text \<open>
  Claim C7. A pass calls the simulated tier only when its \<open>active\<close> flag is set, and
  a pass never sets the flag. When the flag is not set and both the primary and the
  fallback send fail, the pass returns a failure with an error message, having called
  the primary and the fallback tier and nothing else.
\<close>

theorem simulated_tier_gated:
  "(\<not> active (noopEmailService W) \<longrightarrow>
      Simulated \<notin> set (drop (length (attempts W))
                         (attempts (snd (customer_confirmation_job env ord W)))) \<and>
      \<not> simulated (fst (customer_confirmation_job env ord W))) \<and>
   noopEmailService (snd (customer_confirmation_job env ord W)) = noopEmailService W \<and>
   (\<not> active (noopEmailService W) \<and> primary_out env = SendError e1 \<and>
    fallback_out env = SendError e2 \<longrightarrow>
      fst (customer_confirmation_job env ord W) =
        \<lparr>success = False, messageId = None,
         error = Some ''Both primary and fallback email delivery failed'',
         usingFallback = False, simulated = False\<rparr> \<and>
      attempts (snd (customer_confirmation_job env ord W)) = attempts W @ [Primary, Fallback])"
proof -
  have flag: "noopEmailService (snd (customer_confirmation_job env ord W)) = noopEmailService W"
    by (simp add: customer_confirmation_job_def fallback_sendMail_def noop_sendMail_def Let_def
        log_attempt_fields split: send_outcome.splits)
  have gate: "Simulated \<notin> set (drop (length (attempts W))
                         (attempts (snd (customer_confirmation_job env ord W)))) \<and>
      \<not> simulated (fst (customer_confirmation_job env ord W))"
    if off: "\<not> active (noopEmailService W)"
  proof (cases "primary_out env")
    case (Sent mid)
    then show ?thesis using pass_primary_sent [OF Sent, of ord W] by simp
  next
    case p: (SendError e1)
    show ?thesis
    proof (cases "fallback_out env")
      case (Sent mid)
      then show ?thesis using pass_fallback_sent [OF p Sent, of ord W] by simp
    next
      case f: (SendError e2)
      show ?thesis using pass_all_failed [OF p f off, of ord] by simp
    qed
  qed
  have fail: "fst (customer_confirmation_job env ord W) =
        \<lparr>success = False, messageId = None,
         error = Some ''Both primary and fallback email delivery failed'',
         usingFallback = False, simulated = False\<rparr> \<and>
      attempts (snd (customer_confirmation_job env ord W)) = attempts W @ [Primary, Fallback]"
    if "\<not> active (noopEmailService W)" "primary_out env = SendError e1"
      "fallback_out env = SendError e2"
    using pass_all_failed [OF that(2) that(3) that(1), of ord] by simp
  show ?thesis using flag gate fail by blast
qed

theorem simulated_tier_gated_witness:
  "\<not> active (noopEmailService
       \<lparr>emailLogger = EmailLogger_new Missing,
        emailFallback = EmailFallbackService_new,
        noopEmailService = NoopEmailService_new, attempts = []\<rparr>) \<and>
   fst (customer_confirmation_job
      \<lparr>config_from = ''shop'', template = ''h'', primary_out = SendError ''timeout'',
       fallback_out = SendError ''refused'',
       log1 = \<lparr>le_now = 5, le_rnd = ''xy'', le_stamp = 6, read_ok = True, write_ok = True\<rparr>,
       log2 = \<lparr>le_now = 7, le_rnd = ''uv'', le_stamp = 8, read_ok = True, write_ok = True\<rparr>,
       noop_now = 9, noop_rnd = ''zz''\<rparr>
      \<lparr>customer_email = ''a@b.c'', orderId = ''A1''\<rparr>
      \<lparr>emailLogger = EmailLogger_new Missing,
       emailFallback = EmailFallbackService_new,
       noopEmailService = NoopEmailService_new, attempts = []\<rparr>) =
     \<lparr>success = False, messageId = None,
      error = Some ''Both primary and fallback email delivery failed'',
      usingFallback = False, simulated = False\<rparr> \<and>
   attempts (snd (customer_confirmation_job
      \<lparr>config_from = ''shop'', template = ''h'', primary_out = SendError ''timeout'',
       fallback_out = SendError ''refused'',
       log1 = \<lparr>le_now = 5, le_rnd = ''xy'', le_stamp = 6, read_ok = True, write_ok = True\<rparr>,
       log2 = \<lparr>le_now = 7, le_rnd = ''uv'', le_stamp = 8, read_ok = True, write_ok = True\<rparr>,
       noop_now = 9, noop_rnd = ''zz''\<rparr>
      \<lparr>customer_email = ''a@b.c'', orderId = ''A1''\<rparr>
      \<lparr>emailLogger = EmailLogger_new Missing,
       emailFallback = EmailFallbackService_new,
       noopEmailService = NoopEmailService_new, attempts = []\<rparr>)) = [Primary, Fallback]"
proof -
  let ?env = "\<lparr>config_from = ''shop'', template = ''h'', primary_out = SendError ''timeout'',
       fallback_out = SendError ''refused'',
       log1 = \<lparr>le_now = 5, le_rnd = ''xy'', le_stamp = 6, read_ok = True, write_ok = True\<rparr>,
       log2 = \<lparr>le_now = 7, le_rnd = ''uv'', le_stamp = 8, read_ok = True, write_ok = True\<rparr>,
       noop_now = 9, noop_rnd = ''zz''\<rparr>"
  let ?ord = "\<lparr>customer_email = ''a@b.c'', orderId = ''A1''\<rparr>"
  let ?W = "\<lparr>emailLogger = EmailLogger_new Missing,
       emailFallback = EmailFallbackService_new,
       noopEmailService = NoopEmailService_new, attempts = []\<rparr>"
  have h: "\<not> active (noopEmailService ?W) \<and> primary_out ?env = SendError ''timeout'' \<and>
           fallback_out ?env = SendError ''refused''"
    by simp
  note t = simulated_tier_gated [of ?W ?env ?ord "''timeout''" "''refused''",
      THEN conjunct2, THEN conjunct2, rule_format, OF h]
  have a: "\<not> active (noopEmailService ?W)" by simp
  have b: "attempts (snd (customer_confirmation_job ?env ?ord ?W)) = [Primary, Fallback]"
    using t [THEN conjunct2] by simp
  show ?thesis using a b t [THEN conjunct1] by blast
qed

end
